theory Spec2Isabelle
  imports Main "HOL-Library.AList" "HOL-Library.Sublist"
begin

section \<open>The resource builder of pkg/kubectl/resource/builder.go\<close>

text \<open>
  The builder accumulates configuration (paths, resource types, names, resource/name
  tuples, a selector, policy flags) and errors, and \<open>visitorResult\<close> turns the
  accumulated state into a \<open>Result\<close>.  The embedding follows the Go source function by
  function.  What the file imports from other packages (the REST mapper, the label
  parser, the file system, the client of an \<open>Info\<close>) is a record of functions, \<open>env\<close>,
  over which every theorem is universally quantified; the calls \<open>visitorResult\<close> makes on
  the mapper and on clients are logged as a list of events.
\<close>

subsection \<open>Strings\<close>

text \<open>
  \<open>strings.Split(s, sep)\<close> for a separator of one character: the substrings between
  the separators, so the empty string gives one empty segment.
\<close>

fun Split :: "string \<Rightarrow> char \<Rightarrow> string list" where
  "Split [] sep = [[]]"
| "Split (c # cs) sep =
     (if c = sep then [] # Split cs sep
      else (case Split cs sep of [] \<Rightarrow> [[c]] | w # ws \<Rightarrow> (c # w) # ws))"

text \<open>\<open>strings.Contains(s, "/")\<close> and \<open>strings.Join(xs, ",")\<close>.\<close>

definition Contains :: "string \<Rightarrow> char \<Rightarrow> bool" where
  "Contains s c = (c \<in> set s)"

fun Join :: "string list \<Rightarrow> string \<Rightarrow> string" where
  "Join [] sep = []"
| "Join [x] sep = x"
| "Join (x # y # ys) sep = x @ sep @ Join (y # ys) sep"

subsection \<open>SplitResourceArgument\<close>

text \<open>
  The loop of \<open>SplitResourceArgument\<close>: \<open>seen\<close> is the string set, \<open>out\<close> the slice
  built so far.
\<close>

fun SplitResourceArgument_loop :: "string list \<Rightarrow> string set \<Rightarrow> string list \<Rightarrow> string list" where
  "SplitResourceArgument_loop [] seen out = out"
| "SplitResourceArgument_loop (s # ss) seen out =
     (if s \<in> seen then SplitResourceArgument_loop ss seen out
      else SplitResourceArgument_loop ss (insert s seen) (out @ [s]))"

definition SplitResourceArgument :: "string \<Rightarrow> string list" where
  "SplitResourceArgument arg = SplitResourceArgument_loop (Split arg CHR '','') {} []"

text \<open>
  The specification's reading of "the distinct segments in order of first occurrence":
  keep an element, drop its later copies, go on with the rest.
\<close>

fun first_occurrences :: "'a list \<Rightarrow> 'a list" where
  "first_occurrences [] = []"
| "first_occurrences (x # xs) = x # first_occurrences (filter (\<lambda>y. y \<noteq> x) xs)"

subsection \<open>Types of the other packages\<close>

text \<open>
  A REST mapping (\<open>meta.RESTMapping\<close>) as far as the builder reads it: the canonical
  resource name, the API version, the kind and the name of the scope.
\<close>

datatype RESTScopeName = RESTScopeNameNamespace | RESTScopeNameRoot

record RESTMapping =
  MappingResource :: string
  APIVersion :: string
  Kind :: string
  ScopeName :: RESTScopeName

datatype RESTClient = RESTClient nat

datatype selector = LabelSelector "(string \<times> string) list"

datatype URL = URL string

datatype Reader = OsStdin | Reader nat

text \<open>
  Errors.  \<open>fmt.Errorf(format, args...)\<close> keeps its format string and its arguments
  (\<open>%q\<close> of a string, \<open>%v\<close> of an error or of the mapping table); an error that comes
  from another package is \<open>External\<close>.
\<close>

datatype 'e fmtarg = ArgQ string | ArgV 'e | ArgMappings "(string \<times> RESTMapping) list"

datatype error =
    Errorf string "error fmtarg list"
  | Aggregate "error list"
  | External string
  | IndexOutOfRange

text \<open>
  Modelled from the spec: \<open>errors.NewAggregate\<close> of pkg/util/errors is not among the
  sources; the specification calls its result "the aggregate of those errors".  No error
  is returned for an empty list.
\<close>

definition NewAggregate :: "error list \<Rightarrow> error option" where
  "NewAggregate es = (if es = [] then None else Some (Aggregate es))"

record Info =
  Client :: RESTClient
  Mapping :: RESTMapping
  Namespace :: string
  InfoName :: string
  Object :: "string option"

definition NewInfo :: "RESTClient \<Rightarrow> RESTMapping \<Rightarrow> string \<Rightarrow> string \<Rightarrow> Info" where
  "NewInfo client mapping namespace name =
     \<lparr>Client = client, Mapping = mapping, Namespace = namespace, InfoName = name, Object = None\<rparr>"

text \<open>
  The visitors of visitor.go, as the terms the builder constructs: the builder only
  builds them, it never walks them.  \<open>NilVisitor\<close> is the nil interface value.
\<close>

datatype VisitorFunc =
    RetrieveLatest
  | RetrieveLazy
  | SetNamespace string
  | RequireNamespaceFunc string
  | FilterNamespace

datatype Visitor =
    URLVisitor URL
  | StreamVisitor Reader string bool
  | DirectoryVisitor string "string list" bool bool
  | PathVisitor string bool
  | NewSelector RESTClient RESTMapping string selector
  | InfoVisitor Info
  | NilVisitor
  | VisitorList "Visitor list"
  | EagerVisitorList "Visitor list"
  | NewFlattenListVisitor Visitor
  | NewDecoratedVisitor Visitor "VisitorFunc list"

datatype StatResult = StatNotExist | StatError error | StatInfo bool

text \<open>
  The environment: the mapper (\<open>AliasesForResource\<close>, \<open>VersionAndKindForResource\<close>,
  \<open>RESTMapping\<close>, \<open>ClientForMapping\<close>), \<open>Info.Get\<close>, the label package
  (\<open>labels.Parse\<close>, \<open>Selector.Empty\<close>, \<open>labels.Everything\<close>), \<open>url.Parse\<close> and
  \<open>os.Stat\<close> (\<open>StatInfo d\<close> is a file info with \<open>IsDir() = d\<close>).  Go leaves the order
  in which \<open>range\<close> walks a map open: \<open>MapRange\<close> is the order it takes.
\<close>

record env =
  AliasesForResource :: "string \<Rightarrow> string list option"
  VersionAndKindForResource :: "string \<Rightarrow> error + (string \<times> string)"
  RESTMappingFor :: "string \<Rightarrow> string \<Rightarrow> error + RESTMapping"
  ClientForMapping :: "RESTMapping \<Rightarrow> error + RESTClient"
  InfoGet :: "Info \<Rightarrow> error + Info"
  LabelsParse :: "string \<Rightarrow> error + selector"
  SelectorEmpty :: "selector \<Rightarrow> bool"
  Everything :: selector
  URLParse :: "string \<Rightarrow> error + URL"
  Stat :: "string \<Rightarrow> StatResult"
  MapRange :: "(string \<times> RESTMapping) list \<Rightarrow> (string \<times> RESTMapping) list"

text \<open>The calls \<open>visitorResult\<close> makes on the mapper and on clients, in order.\<close>

datatype event =
    EvVersionAndKindForResource string
  | EvRESTMapping string string
  | EvClientForMapping RESTMapping
  | EvGet Info

subsection \<open>The builder\<close>

record resourceTuple =
  Resource :: string
  Name :: string

text \<open>The struct \<open>Builder\<close>; its \<open>mapper\<close> is the environment.\<close>

record Builder =
  errs :: "error list"
  paths :: "Visitor list"
  stream :: bool
  dir :: bool
  selector :: "selector option"
  selectAll :: bool
  resources :: "string list"
  namespace :: string
  names :: "string list"
  resourceTuples :: "resourceTuple list"
  defaultNamespace :: bool
  requireNamespace :: bool
  flatten :: bool
  latest :: bool
  singleResourceType :: bool
  continueOnError :: bool

record Result =
  singular :: bool
  err :: "error option"
  visitor :: Visitor
  sources :: "Visitor list"

definition NewBuilder :: Builder where
  "NewBuilder =
     \<lparr>errs = [], paths = [], stream = False, dir = False, selector = None, selectAll = False,
      resources = [], namespace = [], names = [], resourceTuples = [],
      defaultNamespace = False, requireNamespace = False, flatten = False, latest = False,
      singleResourceType = False, continueOnError = False\<rparr>"

subsection \<open>Configuration methods\<close>

text \<open>
  Every method returns the builder it changed.  The method \<open>URL\<close> is \<open>URLs\<close> here,
  \<open>URL\<close> being the type of a parsed URL.
\<close>

definition URLs :: "URL list \<Rightarrow> Builder \<Rightarrow> Builder" where
  "URLs urls b = b\<lparr>paths := paths b @ map URLVisitor urls\<rparr>"

definition Stream :: "Reader \<Rightarrow> string \<Rightarrow> Builder \<Rightarrow> Builder" where
  "Stream r name b =
     b\<lparr>stream := True, paths := paths b @ [StreamVisitor r name (continueOnError b)]\<rparr>"

definition Stdin :: "Builder \<Rightarrow> Builder" where
  "Stdin b = Stream OsStdin ''STDIN'' b"

fun Path :: "env \<Rightarrow> string list \<Rightarrow> Builder \<Rightarrow> Builder" where
  "Path e [] b = b"
| "Path e (p # ps) b =
     Path e ps
       (case Stat e p of
          StatNotExist \<Rightarrow>
            b\<lparr>errs := errs b @ [Errorf ''the path %q does not exist'' [ArgQ p]]\<rparr>
        | StatError er \<Rightarrow>
            b\<lparr>errs := errs b @ [Errorf ''the path %q cannot be accessed: %v'' [ArgQ p, ArgV er]]\<rparr>
        | StatInfo isDir \<Rightarrow>
            (if isDir
             then b\<lparr>dir := True,
                    paths := paths b @
                      [DirectoryVisitor p [''.json'', ''.yaml''] False (continueOnError b)]\<rparr>
             else b\<lparr>paths := paths b @ [PathVisitor p (continueOnError b)]\<rparr>))"

fun FilenameParam :: "env \<Rightarrow> string list \<Rightarrow> Builder \<Rightarrow> Builder" where
  "FilenameParam e [] b = b"
| "FilenameParam e (s # ss) b =
     FilenameParam e ss
       (if s = ''-'' then Stdin b
        else if prefix ''http://'' s \<or> prefix ''https://'' s
        then (case URLParse e s of
                Inl er \<Rightarrow>
                  b\<lparr>errs := errs b @
                    [Errorf ''the URL passed to filename %q is not valid: %v'' [ArgQ s, ArgV er]]\<rparr>
              | Inr u \<Rightarrow> URLs [u] b)
        else Path e [s] b)"

definition ResourceTypes :: "string list \<Rightarrow> Builder \<Rightarrow> Builder" where
  "ResourceTypes types b = b\<lparr>resources := resources b @ types\<rparr>"

text \<open>\<open>Selector\<close> takes an interface value, which may be nil.\<close>

definition Selector :: "selector option \<Rightarrow> Builder \<Rightarrow> Builder" where
  "Selector sel b = b\<lparr>selector := sel\<rparr>"

definition SelectorParam :: "env \<Rightarrow> string \<Rightarrow> Builder \<Rightarrow> Builder" where
  "SelectorParam e s b =
     (case LabelsParse e s of
        Inl er \<Rightarrow>
          b\<lparr>errs := errs b @ [Errorf ''the provided selector %q is not valid: %v'' [ArgQ s, ArgV er]]\<rparr>
      | Inr sel \<Rightarrow>
          if SelectorEmpty e sel then b
          else if selectAll b
          then b\<lparr>errs := errs b @
                 [Errorf ''found non empty selector %q with previously set 'all' parameter. '' [ArgQ s]]\<rparr>
          else Selector (Some sel) b)"

definition NamespaceParam :: "string \<Rightarrow> Builder \<Rightarrow> Builder" where
  "NamespaceParam ns b = b\<lparr>namespace := ns\<rparr>"

definition DefaultNamespace :: "Builder \<Rightarrow> Builder" where
  "DefaultNamespace b = b\<lparr>defaultNamespace := True\<rparr>"

definition RequireNamespace :: "Builder \<Rightarrow> Builder" where
  "RequireNamespace b = b\<lparr>requireNamespace := True\<rparr>"

definition SelectAllParam :: "bool \<Rightarrow> Builder \<Rightarrow> Builder" where
  "SelectAllParam sa b =
     (if sa \<and> selector b \<noteq> None
      then b\<lparr>errs := errs b @
             [Errorf ''setting 'all' parameter but found a non empty selector. '' []]\<rparr>
      else b\<lparr>selectAll := sa\<rparr>)"

fun replaceAliases :: "env \<Rightarrow> string list \<Rightarrow> string list" where
  "replaceAliases e [] = []"
| "replaceAliases e (arg # args) =
     (case AliasesForResource e arg of
        Some aliases \<Rightarrow> Join aliases '',''
      | None \<Rightarrow> arg) # replaceAliases e args"

definition hasCombinedTypeArgs :: "string list \<Rightarrow> bool \<times> error option" where
  "hasCombinedTypeArgs args =
     (let hasSlash = length (filter (\<lambda>s. Contains s CHR ''/'') args) in
      if hasSlash > 0 \<and> hasSlash = length args then (True, None)
      else if hasSlash > 0 \<and> hasSlash \<noteq> length args
      then (True, Some (Errorf ''when passing arguments in resource/name form, all arguments must include the resource'' []))
      else (False, None))"

text \<open>
  The loop of \<open>ResourceTypeOrNameArgs\<close> over arguments in resource/name form; it returns
  at the first malformed argument and keeps the tuples appended before it.
\<close>

fun resourceNameArgs :: "string list \<Rightarrow> Builder \<Rightarrow> Builder" where
  "resourceNameArgs [] b = b"
| "resourceNameArgs (s # ss) b =
     (case Split s CHR ''/'' of
        [resource, name] \<Rightarrow>
          if length resource = 0 \<or> length name = 0 \<or> length (SplitResourceArgument resource) \<noteq> 1
          then b\<lparr>errs := errs b @
                 [Errorf ''arguments in resource/name form must have a single resource and name'' []]\<rparr>
          else resourceNameArgs ss
                 (b\<lparr>resourceTuples := resourceTuples b @ [\<lparr>Resource = resource, Name = name\<rparr>]\<rparr>)
      | _ \<Rightarrow>
          b\<lparr>errs := errs b @
            [Errorf ''arguments in resource/name form may not have more than one slash'' []]\<rparr>)"

definition ResourceTypeOrNameArgs :: "env \<Rightarrow> bool \<Rightarrow> string list \<Rightarrow> Builder \<Rightarrow> Builder" where
  "ResourceTypeOrNameArgs e allowEmptySelector args0 b =
     (let args = replaceAliases e args0 in
      case hasCombinedTypeArgs args of
        (True, Some er) \<Rightarrow> b\<lparr>errs := errs b @ [er]\<rparr>
      | (True, None) \<Rightarrow> resourceNameArgs args b
      | (False, _) \<Rightarrow>
          if length args > 2
          then ResourceTypes (SplitResourceArgument (args ! 0))
                 (b\<lparr>names := names b @ drop 1 args\<rparr>)
          else if length args = 2
          then ResourceTypes (SplitResourceArgument (args ! 0))
                 (b\<lparr>names := names b @ [args ! 1]\<rparr>)
          else if length args = 1
          then (let b1 = ResourceTypes (SplitResourceArgument (args ! 0)) b in
                if selector b1 = None \<and> allowEmptySelector
                then b1\<lparr>selector := Some (Everything e)\<rparr> else b1)
          else if length args = 0 then b
          else b\<lparr>errs := errs b @
                 [Errorf ''when passing arguments, must be resource or resource and name'' []]\<rparr>)"

definition ResourceTypeAndNameArgs :: "string list \<Rightarrow> Builder \<Rightarrow> Builder" where
  "ResourceTypeAndNameArgs args b =
     (if length args = 2
      then ResourceTypes (SplitResourceArgument (args ! 0)) (b\<lparr>names := names b @ [args ! 1]\<rparr>)
      else if length args = 0 then b
      else b\<lparr>errs := errs b @ [Errorf ''when passing arguments, must be resource and name'' []]\<rparr>)"

definition Flatten :: "Builder \<Rightarrow> Builder" where
  "Flatten b = b\<lparr>flatten := True\<rparr>"

definition Latest :: "Builder \<Rightarrow> Builder" where
  "Latest b = b\<lparr>latest := True\<rparr>"

definition ContinueOnError :: "Builder \<Rightarrow> Builder" where
  "ContinueOnError b = b\<lparr>continueOnError := True\<rparr>"

definition SingleResourceType :: "Builder \<Rightarrow> Builder" where
  "SingleResourceType b = b\<lparr>singleResourceType := True\<rparr>"

subsection \<open>Resolving resource types\<close>

fun resourceMappings_loop ::
  "env \<Rightarrow> string list \<Rightarrow> RESTMapping list \<Rightarrow> (error + RESTMapping list) \<times> event list" where
  "resourceMappings_loop e [] mappings = (Inr mappings, [])"
| "resourceMappings_loop e (r # rs) mappings =
     (case VersionAndKindForResource e r of
        Inl er \<Rightarrow> (Inl er, [EvVersionAndKindForResource r])
      | Inr (version, kind) \<Rightarrow>
          (case RESTMappingFor e kind version of
             Inl er \<Rightarrow> (Inl er, [EvVersionAndKindForResource r, EvRESTMapping kind version])
           | Inr mapping \<Rightarrow>
               (case resourceMappings_loop e rs (mappings @ [mapping]) of
                  (res, tr) \<Rightarrow>
                    (res, EvVersionAndKindForResource r # EvRESTMapping kind version # tr))))"

definition resourceMappings :: "env \<Rightarrow> Builder \<Rightarrow> (error + RESTMapping list) \<times> event list" where
  "resourceMappings e b =
     (if length (resources b) > 1 \<and> singleResourceType b
      then (Inl (Errorf ''you may only specify a single resource type'' []), [])
      else resourceMappings_loop e (resources b) [])"

text \<open>
  The loop of \<open>resourceTupleMappings\<close>: \<open>mappings\<close> is the Go map as an association
  list, \<open>canonical\<close> the set of canonical resource names as a duplicate-free list.
\<close>

fun resourceTupleMappings_loop ::
  "env \<Rightarrow> resourceTuple list \<Rightarrow> (string \<times> RESTMapping) list \<Rightarrow> string list
     \<Rightarrow> (error + (string \<times> RESTMapping) list \<times> string list) \<times> event list" where
  "resourceTupleMappings_loop e [] mappings canonical = (Inr (mappings, canonical), [])"
| "resourceTupleMappings_loop e (r # rs) mappings canonical =
     (if map_of mappings (Resource r) \<noteq> None
      then resourceTupleMappings_loop e rs mappings canonical
      else
        (case VersionAndKindForResource e (Resource r) of
           Inl er \<Rightarrow> (Inl er, [EvVersionAndKindForResource (Resource r)])
         | Inr (version, kind) \<Rightarrow>
             (case RESTMappingFor e kind version of
                Inl er \<Rightarrow>
                  (Inl er, [EvVersionAndKindForResource (Resource r), EvRESTMapping kind version])
              | Inr mapping \<Rightarrow>
                  (case resourceTupleMappings_loop e rs
                          (AList.update (Resource r) mapping
                             (AList.update (MappingResource mapping) mapping mappings))
                          (List.insert (MappingResource mapping) canonical) of
                     (res, tr) \<Rightarrow>
                       (res, EvVersionAndKindForResource (Resource r)
                               # EvRESTMapping kind version # tr)))))"

definition resourceTupleMappings ::
  "env \<Rightarrow> Builder \<Rightarrow> (error + (string \<times> RESTMapping) list) \<times> event list" where
  "resourceTupleMappings e b =
     (case resourceTupleMappings_loop e (resourceTuples b) [] [] of
        (Inl er, tr) \<Rightarrow> (Inl er, tr)
      | (Inr (mappings, canonical), tr) \<Rightarrow>
          if length canonical > 1 \<and> singleResourceType b
          then (Inl (Errorf ''you may only specify a single resource type'' []), tr)
          else (Inr mappings, tr))"

subsection \<open>visitorResult\<close>

definition selectorNamespace :: "Builder \<Rightarrow> RESTMapping \<Rightarrow> string" where
  "selectorNamespace b mapping =
     (if ScopeName mapping \<noteq> RESTScopeNameNamespace then [] else namespace b)"

definition clientKey :: "RESTMapping \<Rightarrow> string" where
  "clientKey mapping = APIVersion mapping @ ''/'' @ MappingResource mapping"

text \<open>Selector mode: one selector visitor for each mapping.\<close>

fun selectorVisitors ::
  "env \<Rightarrow> Builder \<Rightarrow> selector \<Rightarrow> RESTMapping list \<Rightarrow> Visitor list
     \<Rightarrow> (error + Visitor list) \<times> event list" where
  "selectorVisitors e b sel [] visitors = (Inr visitors, [])"
| "selectorVisitors e b sel (mapping # ms) visitors =
     (case ClientForMapping e mapping of
        Inl er \<Rightarrow> (Inl er, [EvClientForMapping mapping])
      | Inr client \<Rightarrow>
          (case selectorVisitors e b sel ms
                  (visitors @ [NewSelector client mapping (selectorNamespace b mapping) sel]) of
             (res, tr) \<Rightarrow> (res, EvClientForMapping mapping # tr)))"

definition selectorResult :: "env \<Rightarrow> Builder \<Rightarrow> selector \<Rightarrow> Result \<times> event list" where
  "selectorResult e b sel =
     (if length (names b) \<noteq> 0
      then (\<lparr>singular = False,
             err = Some (Errorf ''name cannot be provided when a selector is specified'' []),
             visitor = NilVisitor, sources = []\<rparr>, [])
      else if length (resourceTuples b) \<noteq> 0
      then (\<lparr>singular = False,
             err = Some (Errorf ''selectors and the all flag cannot be used when passing resource/name arguments'' []),
             visitor = NilVisitor, sources = []\<rparr>, [])
      else if length (resources b) = 0
      then (\<lparr>singular = False,
             err = Some (Errorf ''at least one resource must be specified to use a selector'' []),
             visitor = NilVisitor, sources = []\<rparr>, [])
      else if length (paths b) \<noteq> 0
      then (if SelectorEmpty e sel
            then (\<lparr>singular = False,
                   err = Some (Errorf ''when paths, URLs, or stdin is provided as input, you may not specify a resource by arguments as well'' []),
                   visitor = NilVisitor, sources = []\<rparr>, [])
            else (\<lparr>singular = False,
                   err = Some (Errorf ''a selector may not be specified when path, URL, or stdin is provided as input'' []),
                   visitor = NilVisitor, sources = []\<rparr>, []))
      else
        (case resourceMappings e b of
           (Inl er, tr) \<Rightarrow>
             (\<lparr>singular = False, err = Some er, visitor = NilVisitor, sources = []\<rparr>, tr)
         | (Inr mappings, tr) \<Rightarrow>
             (case selectorVisitors e b sel mappings [] of
                (Inl er, tr') \<Rightarrow>
                  (\<lparr>singular = False, err = Some er, visitor = NilVisitor, sources = []\<rparr>,
                   tr @ tr')
              | (Inr visitors, tr') \<Rightarrow>
                  (if continueOnError b
                   then (\<lparr>singular = False, err = None,
                          visitor = EagerVisitorList visitors, sources = visitors\<rparr>, tr @ tr')
                   else (\<lparr>singular = False, err = None,
                          visitor = VisitorList visitors, sources = visitors\<rparr>, tr @ tr')))))"

text \<open>
  Tuple mode: one client for each API version and resource, one \<open>Info\<close> for each
  tuple.  The result returned when a client cannot be constructed carries the error only.
\<close>

fun tupleClients ::
  "env \<Rightarrow> (string \<times> RESTMapping) list \<Rightarrow> (string \<times> RESTClient) list
     \<Rightarrow> (error + (string \<times> RESTClient) list) \<times> event list" where
  "tupleClients e [] clients = (Inr clients, [])"
| "tupleClients e ((k, mapping) # ms) clients =
     (if map_of clients (clientKey mapping) \<noteq> None then tupleClients e ms clients
      else
        (case ClientForMapping e mapping of
           Inl er \<Rightarrow> (Inl er, [EvClientForMapping mapping])
         | Inr client \<Rightarrow>
             (case tupleClients e ms (AList.update (clientKey mapping) client clients) of
                (res, tr) \<Rightarrow> (res, EvClientForMapping mapping # tr))))"

fun tupleItems ::
  "Builder \<Rightarrow> (string \<times> RESTMapping) list \<Rightarrow> (string \<times> RESTClient) list
     \<Rightarrow> resourceTuple list \<Rightarrow> Visitor list \<Rightarrow> error + Visitor list" where
  "tupleItems b mappings clients [] items = Inr items"
| "tupleItems b mappings clients (tuple # ts) items =
     (case map_of mappings (Resource tuple) of
        None \<Rightarrow>
          Inl (Errorf ''resource %q is not recognized: %v''
                 [ArgQ (Resource tuple), ArgMappings mappings])
      | Some mapping \<Rightarrow>
          (case map_of clients (clientKey mapping) of
             None \<Rightarrow>
               Inl (Errorf ''could not find a client for resource %q'' [ArgQ (Resource tuple)])
           | Some client \<Rightarrow>
               if ScopeName mapping = RESTScopeNameNamespace \<and> length (namespace b) = 0
               then Inl (Errorf ''namespace may not be empty when retrieving a resource by name'' [])
               else tupleItems b mappings clients ts
                      (items @ [InfoVisitor
                                  (NewInfo client mapping (selectorNamespace b mapping) (Name tuple))])))"

definition tupleResult :: "env \<Rightarrow> Builder \<Rightarrow> Result \<times> event list" where
  "tupleResult e b =
     (let isSingular = (length (resourceTuples b) = 1) in
      if length (paths b) \<noteq> 0
      then (\<lparr>singular = isSingular,
             err = Some (Errorf ''when paths, URLs, or stdin is provided as input, you may not specify a resource by arguments as well'' []),
             visitor = NilVisitor, sources = []\<rparr>, [])
      else if length (resources b) \<noteq> 0
      then (\<lparr>singular = isSingular,
             err = Some (Errorf ''you may not specify individual resources and bulk resources in the same call'' []),
             visitor = NilVisitor, sources = []\<rparr>, [])
      else
        (case resourceTupleMappings e b of
           (Inl er, tr) \<Rightarrow>
             (\<lparr>singular = isSingular, err = Some er, visitor = NilVisitor, sources = []\<rparr>, tr)
         | (Inr mappings, tr) \<Rightarrow>
             (case tupleClients e (MapRange e mappings) [] of
                (Inl er, tr') \<Rightarrow>
                  (\<lparr>singular = False, err = Some er, visitor = NilVisitor, sources = []\<rparr>,
                   tr @ tr')
              | (Inr clients, tr') \<Rightarrow>
                  (case tupleItems b mappings clients (resourceTuples b) [] of
                     Inl er \<Rightarrow>
                       (\<lparr>singular = isSingular, err = Some er, visitor = NilVisitor,
                         sources = []\<rparr>, tr @ tr')
                   | Inr items \<Rightarrow>
                       (\<lparr>singular = isSingular, err = None,
                         visitor = (if continueOnError b then EagerVisitorList items
                                    else VisitorList items),
                         sources = items\<rparr>, tr @ tr')))))"

text \<open>
  Name mode: every name is fetched while the result is built.  \<open>mappings[0]\<close> is
  read after the check that there is exactly one resource type; on an empty slice Go
  would panic, which is the error \<open>IndexOutOfRange\<close> here.
\<close>

fun nameInfos ::
  "env \<Rightarrow> RESTClient \<Rightarrow> RESTMapping \<Rightarrow> string \<Rightarrow> string list \<Rightarrow> Visitor list
     \<Rightarrow> (error + Visitor list) \<times> event list" where
  "nameInfos e client mapping ns [] visitors = (Inr visitors, [])"
| "nameInfos e client mapping ns (name # rest) visitors =
     (let info = NewInfo client mapping ns name in
      case InfoGet e info of
        Inl er \<Rightarrow> (Inl er, [EvGet info])
      | Inr info' \<Rightarrow>
          (case nameInfos e client mapping ns rest (visitors @ [InfoVisitor info']) of
             (res, tr) \<Rightarrow> (res, EvGet info # tr)))"

definition nameResult :: "env \<Rightarrow> Builder \<Rightarrow> Result \<times> event list" where
  "nameResult e b =
     (let isSingular = (length (names b) = 1) in
      if length (paths b) \<noteq> 0
      then (\<lparr>singular = isSingular,
             err = Some (Errorf ''when paths, URLs, or stdin is provided as input, you may not specify a resource by arguments as well'' []),
             visitor = NilVisitor, sources = []\<rparr>, [])
      else if length (resources b) = 0
      then (\<lparr>singular = isSingular,
             err = Some (Errorf ''you must provide a resource and a resource name together'' []),
             visitor = NilVisitor, sources = []\<rparr>, [])
      else if length (resources b) > 1
      then (\<lparr>singular = isSingular,
             err = Some (Errorf ''you must specify only one resource'' []),
             visitor = NilVisitor, sources = []\<rparr>, [])
      else
        (case resourceMappings e b of
           (Inl er, tr) \<Rightarrow>
             (\<lparr>singular = isSingular, err = Some er, visitor = NilVisitor, sources = []\<rparr>, tr)
         | (Inr [], tr) \<Rightarrow>
             (\<lparr>singular = isSingular, err = Some IndexOutOfRange, visitor = NilVisitor,
               sources = []\<rparr>, tr)
         | (Inr (mapping # _), tr) \<Rightarrow>
             (case ClientForMapping e mapping of
                Inl er \<Rightarrow>
                  (\<lparr>singular = False, err = Some er, visitor = NilVisitor, sources = []\<rparr>,
                   tr @ [EvClientForMapping mapping])
              | Inr client \<Rightarrow>
                  if ScopeName mapping = RESTScopeNameNamespace \<and> length (namespace b) = 0
                  then (\<lparr>singular = isSingular,
                         err = Some (Errorf ''namespace may not be empty when retrieving a resource by name'' []),
                         visitor = NilVisitor, sources = []\<rparr>,
                        tr @ [EvClientForMapping mapping])
                  else
                    (case nameInfos e client mapping (selectorNamespace b mapping) (names b) [] of
                       (Inl er, tr') \<Rightarrow>
                         (\<lparr>singular = isSingular, err = Some er, visitor = NilVisitor,
                           sources = []\<rparr>, tr @ EvClientForMapping mapping # tr')
                     | (Inr visitors, tr') \<Rightarrow>
                         (\<lparr>singular = isSingular, err = None, visitor = VisitorList visitors,
                           sources = visitors\<rparr>, tr @ EvClientForMapping mapping # tr')))))"

text \<open>Path mode.\<close>

definition pathResult :: "Builder \<Rightarrow> Result \<times> event list" where
  "pathResult b =
     (let sing = (\<not> dir b \<and> \<not> stream b \<and> length (paths b) = 1) in
      if length (resources b) \<noteq> 0
      then (\<lparr>singular = sing,
             err = Some (Errorf ''when paths, URLs, or stdin is provided as input, you may not specify resource arguments as well'' []),
             visitor = NilVisitor, sources = []\<rparr>, [])
      else
        (let visitors = (if continueOnError b then EagerVisitorList (paths b)
                         else VisitorList (paths b));
             visitors' = (if latest b
                          then NewDecoratedVisitor
                                 (if flatten b then NewFlattenListVisitor visitors else visitors)
                                 [RetrieveLatest]
                          else visitors)
         in (\<lparr>singular = sing, err = None, visitor = visitors', sources = paths b\<rparr>, [])))"

text \<open>The branches of \<open>visitorResult\<close> in the order of the source.\<close>

definition modeResult :: "env \<Rightarrow> Builder \<Rightarrow> Result \<times> event list" where
  "modeResult e b =
     (case selector b of
        Some sel \<Rightarrow> selectorResult e b sel
      | None \<Rightarrow>
          if length (resourceTuples b) \<noteq> 0 then tupleResult e b
          else if length (names b) \<noteq> 0 then nameResult e b
          else if length (paths b) \<noteq> 0 then pathResult b
          else (\<lparr>singular = False,
                 err = Some (Errorf ''you must provide one or more resources by argument or filename'' []),
                 visitor = NilVisitor, sources = []\<rparr>, []))"

text \<open>
  \<open>visitorResult\<close> returns the result, the builder (whose selector it overwrites when
  \<open>selectAll\<close> is set) and the calls it made.
\<close>

definition visitorResult :: "env \<Rightarrow> Builder \<Rightarrow> Result \<times> Builder \<times> event list" where
  "visitorResult e b =
     (if length (errs b) > 0
      then (\<lparr>singular = False, err = NewAggregate (errs b), visitor = NilVisitor, sources = []\<rparr>,
            b, [])
      else
        (let b1 = (if selectAll b then b\<lparr>selector := Some (Everything e)\<rparr> else b)
         in (fst (modeResult e b1), b1, snd (modeResult e b1))))"

subsection \<open>Do\<close>

definition helpers :: "Builder \<Rightarrow> VisitorFunc list" where
  "helpers b =
     (if defaultNamespace b then [SetNamespace (namespace b)] else [])
     @ (if requireNamespace b then [RequireNamespaceFunc (namespace b)] else [])
     @ [FilterNamespace]
     @ (if latest b then [RetrieveLazy] else [])"

definition Do :: "env \<Rightarrow> Builder \<Rightarrow> Result \<times> Builder \<times> event list" where
  "Do e b =
     (case visitorResult e b of
        (r, b1, tr) \<Rightarrow>
          if err r \<noteq> None then (r, b1, tr)
          else
            (let r1 = (if flatten b1 then r\<lparr>visitor := NewFlattenListVisitor (visitor r)\<rparr> else r)
             in (r1\<lparr>visitor := NewDecoratedVisitor (visitor r1) (helpers b1)\<rparr>, b1, tr)))"

subsection \<open>A test environment\<close>

text \<open>
  Two resource types, pods (also known as pod) and services; a fetch that fails for the
  name "missing"; a stat that knows a missing file and a directory.
\<close>

definition podsMapping :: RESTMapping where
  "podsMapping = \<lparr>MappingResource = ''pods'', APIVersion = ''v1'', Kind = ''Pod'',
                   ScopeName = RESTScopeNameNamespace\<rparr>"

definition servicesMapping :: RESTMapping where
  "servicesMapping = \<lparr>MappingResource = ''services'', APIVersion = ''v1'', Kind = ''Service'',
                       ScopeName = RESTScopeNameNamespace\<rparr>"

definition testEnv :: env where
  "testEnv =
     \<lparr>AliasesForResource = (\<lambda>r. None),
      VersionAndKindForResource =
        (\<lambda>r. if r = ''pods'' \<or> r = ''pod'' then Inr (''v1'', ''Pod'')
             else if r = ''services'' then Inr (''v1'', ''Service'')
             else Inl (External ''no resource'')),
      RESTMappingFor =
        (\<lambda>kind version. if kind = ''Pod'' \<and> version = ''v1'' then Inr podsMapping
                        else if kind = ''Service'' \<and> version = ''v1'' then Inr servicesMapping
                        else Inl (External ''no mapping'')),
      ClientForMapping = (\<lambda>m. Inr (RESTClient 0)),
      InfoGet = (\<lambda>i. if InfoName i = ''missing'' then Inl (External ''not found'')
                      else Inr (i\<lparr>Object := Some ''object''\<rparr>)),
      LabelsParse = (\<lambda>s. if s = [] then Inr (LabelSelector [])
                          else if Contains s CHR ''='' then Inr (LabelSelector [(s, s)])
                          else Inl (External ''invalid selector'')),
      SelectorEmpty = (\<lambda>sel. sel = LabelSelector []),
      Everything = LabelSelector [],
      URLParse = (\<lambda>s. Inr (URL s)),
      Stat = (\<lambda>p. if p = ''missing.json'' then StatNotExist else StatInfo (p = ''manifests'')),
      MapRange = (\<lambda>m. m)\<rparr>"

subsection \<open>Predicates of the properties\<close>

text \<open>An environment in which "x" is an alias of "pods/foo".\<close>

definition aliasEnv :: env where
  "aliasEnv =
     testEnv\<lparr>AliasesForResource := (\<lambda>r. if r = ''x'' then Some [''pods/foo''] else None)\<rparr>"

text \<open>At least one but not all of the arguments contain a slash.\<close>

definition mixedSlash :: "string list \<Rightarrow> bool" where
  "mixedSlash args =
     ((\<exists>a \<in> set args. Contains a CHR ''/'') \<and> (\<exists>a \<in> set args. \<not> Contains a CHR ''/''))"

text \<open>
  The overlay of \<open>Do\<close> as the specification words it: flatten only if requested and not
  already applied by the mode branch, the lazy refresh only if latest is requested and
  not already applied eagerly.
\<close>

fun flattenApplied :: "Visitor \<Rightarrow> bool" where
  "flattenApplied (NewFlattenListVisitor v) = True"
| "flattenApplied (NewDecoratedVisitor v fs) = flattenApplied v"
| "flattenApplied v = False"

fun latestApplied :: "Visitor \<Rightarrow> bool" where
  "latestApplied (NewDecoratedVisitor v fs) = (RetrieveLatest \<in> set fs)"
| "latestApplied v = False"

definition Do_overlay_spec :: "Builder \<Rightarrow> Result \<Rightarrow> Result" where
  "Do_overlay_spec b r =
     r\<lparr>visitor :=
         NewDecoratedVisitor
           (if flatten b \<and> \<not> flattenApplied (visitor r)
            then NewFlattenListVisitor (visitor r) else visitor r)
           ((if defaultNamespace b then [SetNamespace (namespace b)] else [])
            @ (if requireNamespace b then [RequireNamespaceFunc (namespace b)] else [])
            @ [FilterNamespace]
            @ (if latest b \<and> \<not> latestApplied (visitor r) then [RetrieveLazy] else []))\<rparr>"

text \<open>The number of flatten wrappers on the way down from the top of a visitor.\<close>

fun flattenCount :: "Visitor \<Rightarrow> nat" where
  "flattenCount (NewFlattenListVisitor v) = Suc (flattenCount v)"
| "flattenCount (NewDecoratedVisitor v fs) = flattenCount v"
| "flattenCount v = 0"

text \<open>A path-mode configuration with latest and flatten: one file, both flags.\<close>

definition pathLatestFlatten :: Builder where
  "pathLatestFlatten = Flatten (Latest (FilenameParam testEnv [''pod.json''] NewBuilder))"

text \<open>An environment in which no client can be constructed.\<close>

definition noClientEnv :: env where
  "noClientEnv = testEnv\<lparr>ClientForMapping := (\<lambda>m. Inl (External ''no client''))\<rparr>"

definition oneTuple :: Builder where
  "oneTuple =
     NamespaceParam ''default'' (ResourceTypeOrNameArgs noClientEnv False [''pods/foo''] NewBuilder)"

definition oneName :: Builder where
  "oneName =
     NamespaceParam ''default''
       (ResourceTypeOrNameArgs noClientEnv False [''pods'', ''foo''] NewBuilder)"

text \<open>Two spellings of one resource type, in bulk form and in resource/name form.\<close>

definition twoSpellingsBulk :: Builder where
  "twoSpellingsBulk =
     SingleResourceType (ResourceTypeOrNameArgs testEnv True [''pods,pod''] NewBuilder)"

definition twoTypesTuples :: Builder where
  "twoTypesTuples =
     SingleResourceType
       (ResourceTypeOrNameArgs testEnv False [''pods/foo'', ''services/bar''] NewBuilder)"

definition twoSpellingsTuples :: Builder where
  "twoSpellingsTuples =
     SingleResourceType
       (ResourceTypeOrNameArgs testEnv False [''pods/foo'', ''pod/bar''] NewBuilder)"

text \<open>
  The invariant of the loop of \<open>resourceTupleMappings\<close>: the canonical names are the
  resource names of the mappings in the table, each stored under its own name.
\<close>

definition canonicalInv :: "(string \<times> RESTMapping) list \<Rightarrow> string list \<Rightarrow> bool" where
  "canonicalInv mappings canonical =
     (distinct canonical
      \<and> (\<forall>k m. map_of mappings k = Some m \<longrightarrow> MappingResource m \<in> set canonical)
      \<and> (\<forall>c \<in> set canonical. \<exists>m. map_of mappings c = Some m \<and> MappingResource m = c))"

text \<open>Name mode with three names, the second of which cannot be fetched.\<close>

definition threeNames :: Builder where
  "threeNames =
     ContinueOnError
       (NamespaceParam ''default''
          (ResourceTypeOrNameArgs testEnv False [''pods'', ''a'', ''missing'', ''c''] NewBuilder))"

subsection \<open>Configurations\<close>

text \<open>
  The fields of a builder are private to the package: a caller reaches a builder state
  from \<open>NewBuilder\<close> through the methods only.  A call is one method with its arguments
  (\<open>DoCall\<close> is an evaluation, which may overwrite the selector), a configuration is the
  state after a list of calls.
\<close>

datatype call =
    FilenameParamCall "string list"
  | URLCall "URL list"
  | StdinCall
  | StreamCall Reader string
  | PathCall "string list"
  | ResourceTypesCall "string list"
  | SelectorParamCall string
  | SelectorCall "selector option"
  | NamespaceParamCall string
  | DefaultNamespaceCall
  | RequireNamespaceCall
  | SelectAllParamCall bool
  | ResourceTypeOrNameArgsCall bool "string list"
  | ResourceTypeAndNameArgsCall "string list"
  | FlattenCall
  | LatestCall
  | ContinueOnErrorCall
  | SingleResourceTypeCall
  | DoCall

fun applyCall :: "env \<Rightarrow> Builder \<Rightarrow> call \<Rightarrow> Builder" where
  "applyCall e b (FilenameParamCall ps) = FilenameParam e ps b"
| "applyCall e b (URLCall us) = URLs us b"
| "applyCall e b StdinCall = Stdin b"
| "applyCall e b (StreamCall r name) = Stream r name b"
| "applyCall e b (PathCall ps) = Path e ps b"
| "applyCall e b (ResourceTypesCall ts) = ResourceTypes ts b"
| "applyCall e b (SelectorParamCall s) = SelectorParam e s b"
| "applyCall e b (SelectorCall sel) = Selector sel b"
| "applyCall e b (NamespaceParamCall ns) = NamespaceParam ns b"
| "applyCall e b DefaultNamespaceCall = DefaultNamespace b"
| "applyCall e b RequireNamespaceCall = RequireNamespace b"
| "applyCall e b (SelectAllParamCall sa) = SelectAllParam sa b"
| "applyCall e b (ResourceTypeOrNameArgsCall allowEmptySelector args) =
     ResourceTypeOrNameArgs e allowEmptySelector args b"
| "applyCall e b (ResourceTypeAndNameArgsCall args) = ResourceTypeAndNameArgs args b"
| "applyCall e b FlattenCall = Flatten b"
| "applyCall e b LatestCall = Latest b"
| "applyCall e b ContinueOnErrorCall = ContinueOnError b"
| "applyCall e b SingleResourceTypeCall = SingleResourceType b"
| "applyCall e b DoCall = fst (snd (Do e b))"

definition configure :: "env \<Rightarrow> call list \<Rightarrow> Builder" where
  "configure e cs = foldl (applyCall e) NewBuilder cs"

text \<open>
  A configuration error is an error the builder made itself with \<open>fmt.Errorf\<close>, or the
  aggregate of such errors.
\<close>

fun isErrorf :: "error \<Rightarrow> bool" where
  "isErrorf (Errorf f args) = True"
| "isErrorf er = False"

definition isConfigurationError :: "error \<Rightarrow> bool" where
  "isConfigurationError er =
     (case er of
        Errorf f args \<Rightarrow> True
      | Aggregate es \<Rightarrow> es \<noteq> [] \<and> list_all isErrorf es
      | _ \<Rightarrow> False)"

text \<open>
  The number of selection modes that are populated when the builder is evaluated: a
  selector (set, or made by \<open>selectAll\<close>), tuples, names, paths.
\<close>

definition populatedModes :: "Builder \<Rightarrow> nat" where
  "populatedModes b =
     (if selector b \<noteq> None \<or> selectAll b then 1 else 0)
     + (if resourceTuples b \<noteq> [] then 1 else 0)
     + (if names b \<noteq> [] then 1 else 0)
     + (if paths b \<noteq> [] then 1 else 0)"

text \<open>What every configuration satisfies: names come with a resource type, and the
  accumulated errors are the builder's own.\<close>

definition builderInv :: "Builder \<Rightarrow> bool" where
  "builderInv b = ((names b \<noteq> [] \<longrightarrow> resources b \<noteq> []) \<and> list_all isErrorf (errs b))"

definition selectorAndName :: "call list" where
  "selectorAndName =
     [SelectorParamCall ''app=web'', ResourceTypeOrNameArgsCall False [''pods'', ''foo'']]"

section \<open>Properties\<close>

subsection \<open>Splitting\<close>

lemma Split_not_Nil: "Split s sep \<noteq> []"
  by (induction s) (auto split: list.splits)

lemma set_first_occurrences: "set (first_occurrences xs) = set xs"
proof (induction xs rule: first_occurrences.induct)
  case 1
  show ?case by simp
next
  case (2 x xs)
  then show ?case by auto
qed

lemma distinct_first_occurrences: "distinct (first_occurrences xs)"
proof (induction xs rule: first_occurrences.induct)
  case 1
  show ?case by simp
next
  case (2 x xs)
  then show ?case by (simp add: set_first_occurrences)
qed

lemma remdups_snoc: "remdups (ys @ [x]) = remdups (filter (\<lambda>y. y \<noteq> x) ys) @ [x]"
  by (induction ys) auto

lemma first_occurrences_remdups: "first_occurrences xs = rev (remdups (rev xs))"
proof (induction xs rule: first_occurrences.induct)
  case 1
  show ?case by simp
next
  case (2 x xs)
  then show ?case by (simp add: remdups_snoc rev_filter)
qed

lemma SplitResourceArgument_loop_eq:
  "SplitResourceArgument_loop xs (set out) out =
     out @ first_occurrences (filter (\<lambda>x. x \<notin> set out) xs)"
proof (induction xs arbitrary: out)
  case Nil
  show ?case by simp
next
  case (Cons x xs)
  show ?case
  proof (cases "x \<in> set out")
    case True
    with Cons show ?thesis by simp
  next
    case False
    have "SplitResourceArgument_loop (x # xs) (set out) out =
            SplitResourceArgument_loop xs (set (out @ [x])) (out @ [x])"
      using False by simp
    also have "\<dots> = (out @ [x]) @ first_occurrences (filter (\<lambda>y. y \<notin> set (out @ [x])) xs)"
      by (rule Cons.IH)
    also have "filter (\<lambda>y. y \<notin> set (out @ [x])) xs =
                 filter (\<lambda>y. y \<noteq> x) (filter (\<lambda>y. y \<notin> set out) xs)"
      by (induction xs) auto
    finally show ?thesis using False by simp
  qed
qed

lemma SplitResourceArgument_first_occurrences:
  "SplitResourceArgument arg = first_occurrences (Split arg CHR '','')"
  using SplitResourceArgument_loop_eq [of "Split arg CHR '',''" "[]"]
  by (simp add: SplitResourceArgument_def)

lemma SplitResourceArgument_not_Nil: "SplitResourceArgument arg \<noteq> []"
proof -
  obtain w ws where "Split arg CHR '','' = w # ws"
    using Split_not_Nil [of arg "CHR '',''"] by (cases "Split arg CHR '',''") auto
  then show ?thesis by (simp add: SplitResourceArgument_first_occurrences)
qed

text \<open>
  C7.  For every argument string, \<open>SplitResourceArgument\<close> returns the comma-separated
  segments without duplicates, each at the place of its first occurrence: the result is
  \<open>first_occurrences\<close> of the segments (equally, the reversed \<open>remdups\<close> of the reversed
  segments), it is duplicate-free and has the same elements as the segments.  In
  particular \<open>"pods,services,pods"\<close> gives \<open>["pods", "services"]\<close>.
\<close>

theorem C7_SplitResourceArgument_distinct_in_order:
  "SplitResourceArgument arg = first_occurrences (Split arg CHR '','')
   \<and> SplitResourceArgument arg = rev (remdups (rev (Split arg CHR '','')))
   \<and> distinct (SplitResourceArgument arg)
   \<and> set (SplitResourceArgument arg) = set (Split arg CHR '','')
   \<and> SplitResourceArgument ''pods,services,pods'' = [''pods'', ''services'']"
proof -
  have a: "SplitResourceArgument arg = first_occurrences (Split arg CHR '','')"
    by (rule SplitResourceArgument_first_occurrences)
  have b: "SplitResourceArgument arg = rev (remdups (rev (Split arg CHR '','')))"
    by (simp add: a first_occurrences_remdups)
  have c: "distinct (SplitResourceArgument arg)"
    by (simp add: a distinct_first_occurrences)
  have d: "set (SplitResourceArgument arg) = set (Split arg CHR '','')"
    by (simp add: a set_first_occurrences)
  have e: "SplitResourceArgument ''pods,services,pods'' = [''pods'', ''services'']"
    by (simp add: SplitResourceArgument_def)
  from a b c d e show ?thesis by blast
qed

subsection \<open>Accumulated errors\<close>

text \<open>
  C2.  If the accumulated error list of the builder is not empty, \<open>visitorResult\<close>
  returns a result whose error is the aggregate of exactly these errors, with no visitor
  and no sources; the builder is unchanged and no call is made on the mapper or on a
  client (the event list is empty), so no mode branch has run.
\<close>

theorem C2_errs_short_circuit:
  "errs b \<noteq> [] \<Longrightarrow>
     visitorResult e b =
       (\<lparr>singular = False, err = Some (Aggregate (errs b)), visitor = NilVisitor, sources = []\<rparr>,
        b, [])"
  by (simp add: visitorResult_def modeResult_def Let_def NewAggregate_def)

theorem C2_errs_short_circuit_witness:
  "errs (ResourceTypeAndNameArgs [''pods''] NewBuilder) \<noteq> []
   \<and> visitorResult testEnv (ResourceTypeAndNameArgs [''pods''] NewBuilder) =
       (\<lparr>singular = False,
         err = Some (Aggregate [Errorf ''when passing arguments, must be resource and name'' []]),
         visitor = NilVisitor, sources = []\<rparr>,
        ResourceTypeAndNameArgs [''pods''] NewBuilder, [])"
proof -
  have h: "errs (ResourceTypeAndNameArgs [''pods''] NewBuilder) \<noteq> []"
    by (simp add: ResourceTypeAndNameArgs_def NewBuilder_def)
  have v: "errs (ResourceTypeAndNameArgs [''pods''] NewBuilder) =
             [Errorf ''when passing arguments, must be resource and name'' []]"
    by (simp add: ResourceTypeAndNameArgs_def NewBuilder_def)
  show ?thesis using h C2_errs_short_circuit [OF h, of testEnv] by (simp add: v)
qed

subsection \<open>Do on a failed result\<close>

text \<open>
  C10.  If \<open>visitorResult\<close> produces a result with an error, \<open>Do\<close> returns exactly
  what \<open>visitorResult\<close> returned: the same result (singular flag, error, visitor and
  sources untouched, no flatten wrapper, no decorator), the same builder, the same calls.
\<close>

theorem C10_Do_returns_error_result:
  "err (fst (visitorResult e b)) \<noteq> None \<Longrightarrow> Do e b = visitorResult e b"
  by (cases "visitorResult e b") (simp add: Do_def)

theorem C10_Do_returns_error_result_witness:
  "err (fst (visitorResult testEnv NewBuilder)) \<noteq> None
   \<and> Do testEnv NewBuilder = visitorResult testEnv NewBuilder
   \<and> fst (Do testEnv NewBuilder) =
       \<lparr>singular = False,
        err = Some (Errorf ''you must provide one or more resources by argument or filename'' []),
        visitor = NilVisitor, sources = []\<rparr>"
proof -
  have h: "err (fst (visitorResult testEnv NewBuilder)) \<noteq> None"
    by (simp add: visitorResult_def modeResult_def Let_def NewBuilder_def)
  have v: "fst (visitorResult testEnv NewBuilder) =
       \<lparr>singular = False,
        err = Some (Errorf ''you must provide one or more resources by argument or filename'' []),
        visitor = NilVisitor, sources = []\<rparr>"
    by (simp add: visitorResult_def modeResult_def Let_def NewBuilder_def)
  show ?thesis using h C10_Do_returns_error_result [OF h] v by simp
qed

subsection \<open>Arguments in resource/name form\<close>

lemma hasCombinedTypeArgs_mixed:
  assumes "mixedSlash args"
  shows "hasCombinedTypeArgs args =
           (True, Some (Errorf ''when passing arguments in resource/name form, all arguments must include the resource'' []))"
proof -
  from assms obtain a c where a: "a \<in> set args" "Contains a CHR ''/''"
    and c: "c \<in> set args" "\<not> Contains c CHR ''/''"
    by (auto simp: mixedSlash_def)
  have "a \<in> set (filter (\<lambda>s. Contains s CHR ''/'') args)" using a by simp
  then have pos: "0 < length (filter (\<lambda>s. Contains s CHR ''/'') args)"
    by (cases "filter (\<lambda>s. Contains s CHR ''/'') args") auto
  have less: "length (filter (\<lambda>s. Contains s CHR ''/'') args) < length args"
    using c by (rule length_filter_less)
  from pos less show ?thesis by (simp add: hasCombinedTypeArgs_def)
qed

lemma replaceAliases_no_alias:
  "\<forall>a \<in> set args. AliasesForResource e a = None \<Longrightarrow> replaceAliases e args = args"
  by (induction args) auto

lemma ResourceTypeOrNameArgs_mixed:
  assumes "mixedSlash (replaceAliases e args)"
  shows "ResourceTypeOrNameArgs e allowEmptySelector args b =
           b\<lparr>errs := errs b @ [Errorf ''when passing arguments in resource/name form, all arguments must include the resource'' []]\<rparr>"
  using hasCombinedTypeArgs_mixed [OF assms] by (simp add: ResourceTypeOrNameArgs_def)

text \<open>
  C9, as stated of the arguments passed, fails: \<open>ResourceTypeOrNameArgs\<close> replaces
  aliases before it counts the arguments with a slash.  Where "x" is an alias of
  "pods/foo", the arguments "x" and "pods/bar" (one without a slash, one with) record no
  error and append two tuples.
\<close>

theorem C9_alias_changes_slash_count:
  "mixedSlash [''x'', ''pods/bar'']
   \<and> replaceAliases aliasEnv [''x'', ''pods/bar''] = [''pods/foo'', ''pods/bar'']
   \<and> ResourceTypeOrNameArgs aliasEnv False [''x'', ''pods/bar''] NewBuilder =
        NewBuilder\<lparr>resourceTuples := [\<lparr>Resource = ''pods'', Name = ''foo''\<rparr>,
                                      \<lparr>Resource = ''pods'', Name = ''bar''\<rparr>]\<rparr>
   \<and> errs (ResourceTypeOrNameArgs aliasEnv False [''x'', ''pods/bar''] NewBuilder) = []
   \<and> resourceTuples (ResourceTypeOrNameArgs aliasEnv False [''x'', ''pods/bar''] NewBuilder)
        \<noteq> resourceTuples NewBuilder"
proof -
  have m: "mixedSlash [''x'', ''pods/bar'']"
    by (simp add: mixedSlash_def Contains_def)
  have r: "replaceAliases aliasEnv [''x'', ''pods/bar''] = [''pods/foo'', ''pods/bar'']"
    by (simp add: aliasEnv_def testEnv_def)
  have t: "ResourceTypeOrNameArgs aliasEnv False [''x'', ''pods/bar''] NewBuilder =
        NewBuilder\<lparr>resourceTuples := [\<lparr>Resource = ''pods'', Name = ''foo''\<rparr>,
                                      \<lparr>Resource = ''pods'', Name = ''bar''\<rparr>]\<rparr>"
    by (simp add: ResourceTypeOrNameArgs_def aliasEnv_def testEnv_def hasCombinedTypeArgs_def
        Contains_def SplitResourceArgument_def NewBuilder_def)
  have e: "errs (ResourceTypeOrNameArgs aliasEnv False [''x'', ''pods/bar''] NewBuilder) = []"
    unfolding t by (simp add: NewBuilder_def)
  have n: "resourceTuples (ResourceTypeOrNameArgs aliasEnv False [''x'', ''pods/bar''] NewBuilder)
        \<noteq> resourceTuples NewBuilder"
    unfolding t by (simp add: NewBuilder_def)
  show ?thesis using m r t e n by (intro conjI)
qed

text \<open>
  C9, amended.  \<open>ResourceTypeOrNameArgs\<close> first replaces aliases and then counts the
  arguments with a slash.  If at least one but not all of the arguments after alias
  replacement contain a slash (these are the arguments passed when none of them is an
  alias), exactly one error, "when passing arguments in resource/name form, all
  arguments must include the resource", is appended to the errors and nothing else in
  the builder changes: tuples, names and resource types are as before.
\<close>

theorem C9_mixed_slash_arguments:
  "(mixedSlash (replaceAliases e args) \<or>
    (\<forall>a \<in> set args. AliasesForResource e a = None) \<and> mixedSlash args) \<Longrightarrow>
   ResourceTypeOrNameArgs e allowEmptySelector args b =
     b\<lparr>errs := errs b @ [Errorf ''when passing arguments in resource/name form, all arguments must include the resource'' []]\<rparr>
   \<and> resourceTuples (ResourceTypeOrNameArgs e allowEmptySelector args b) = resourceTuples b
   \<and> names (ResourceTypeOrNameArgs e allowEmptySelector args b) = names b
   \<and> resources (ResourceTypeOrNameArgs e allowEmptySelector args b) = resources b"
proof -
  assume h: "mixedSlash (replaceAliases e args) \<or>
    (\<forall>a \<in> set args. AliasesForResource e a = None) \<and> mixedSlash args"
  have "mixedSlash (replaceAliases e args)"
    using h replaceAliases_no_alias [of args e] by auto
  then show ?thesis by (simp add: ResourceTypeOrNameArgs_mixed)
qed

theorem C9_mixed_slash_arguments_witness:
  "AliasesForResource testEnv ''pods/foo'' = None \<and> AliasesForResource testEnv ''bar'' = None
   \<and> mixedSlash [''pods/foo'', ''bar'']
   \<and> ResourceTypeOrNameArgs testEnv True [''pods/foo'', ''bar''] NewBuilder =
       NewBuilder\<lparr>errs := [Errorf ''when passing arguments in resource/name form, all arguments must include the resource'' []]\<rparr>"
proof -
  have h1: "\<forall>a \<in> set [''pods/foo'', ''bar'']. AliasesForResource testEnv a = None"
    by (simp add: testEnv_def)
  have h2: "mixedSlash [''pods/foo'', ''bar'']"
    by (simp add: mixedSlash_def Contains_def)
  from h1 h2 have h: "mixedSlash (replaceAliases testEnv [''pods/foo'', ''bar'']) \<or>
    (\<forall>a \<in> set [''pods/foo'', ''bar'']. AliasesForResource testEnv a = None) \<and> mixedSlash [''pods/foo'', ''bar'']"
    by blast
  show ?thesis
    using h1 h2 C9_mixed_slash_arguments [OF h, of True NewBuilder]
    by (simp add: NewBuilder_def)
qed

subsection \<open>Selector and select all\<close>

text \<open>
  C8.  Select all together with a non-empty selector is an error in either order:
  \<open>SelectorParam\<close> with a string that parses to a non-empty selector appends an error
  when \<open>selectAll\<close> is set (in particular after \<open>SelectAllParam(true)\<close>), and
  \<open>SelectAllParam(true)\<close> appends an error when a selector is set (in particular after
  such a \<open>SelectorParam\<close>).  \<open>SelectorParam\<close> with a string that parses to an empty
  selector returns the builder unchanged, with no error, also when \<open>selectAll\<close> is set.
\<close>

theorem C8_select_all_and_selector:
  "(LabelsParse e s = Inr sel \<and> \<not> SelectorEmpty e sel \<and> selectAll b \<longrightarrow>
      SelectorParam e s b =
        b\<lparr>errs := errs b @ [Errorf ''found non empty selector %q with previously set 'all' parameter. '' [ArgQ s]]\<rparr>)
   \<and> (LabelsParse e s = Inr sel \<and> \<not> SelectorEmpty e sel \<and> selector b = None \<longrightarrow>
      SelectorParam e s (SelectAllParam True b) =
        b\<lparr>selectAll := True,
          errs := errs b @ [Errorf ''found non empty selector %q with previously set 'all' parameter. '' [ArgQ s]]\<rparr>)
   \<and> (selector b \<noteq> None \<longrightarrow>
      SelectAllParam True b =
        b\<lparr>errs := errs b @ [Errorf ''setting 'all' parameter but found a non empty selector. '' []]\<rparr>)
   \<and> (LabelsParse e s = Inr sel \<and> \<not> SelectorEmpty e sel \<and> \<not> selectAll b \<longrightarrow>
      SelectAllParam True (SelectorParam e s b) =
        b\<lparr>selector := Some sel,
          errs := errs b @ [Errorf ''setting 'all' parameter but found a non empty selector. '' []]\<rparr>)
   \<and> (LabelsParse e s = Inr sel \<and> SelectorEmpty e sel \<longrightarrow>
      SelectorParam e s b = b \<and> SelectorParam e s (b\<lparr>selectAll := True\<rparr>) = b\<lparr>selectAll := True\<rparr>)"
  by (simp add: SelectorParam_def SelectAllParam_def Selector_def)

theorem C8_select_all_and_selector_witness:
  "LabelsParse testEnv ''app=web'' = Inr (LabelSelector [(''app=web'', ''app=web'')])
   \<and> \<not> SelectorEmpty testEnv (LabelSelector [(''app=web'', ''app=web'')])
   \<and> selector NewBuilder = None \<and> \<not> selectAll NewBuilder
   \<and> selectAll (SelectAllParam True NewBuilder)
   \<and> selector (SelectorParam testEnv ''app=web'' NewBuilder) \<noteq> None
   \<and> LabelsParse testEnv '''' = Inr (LabelSelector [])
   \<and> SelectorEmpty testEnv (LabelSelector [])
   \<and> errs (SelectorParam testEnv ''app=web'' (SelectAllParam True NewBuilder)) =
       [Errorf ''found non empty selector %q with previously set 'all' parameter. '' [ArgQ ''app=web'']]
   \<and> errs (SelectAllParam True (SelectorParam testEnv ''app=web'' NewBuilder)) =
       [Errorf ''setting 'all' parameter but found a non empty selector. '' []]
   \<and> SelectorParam testEnv '''' (SelectAllParam True NewBuilder) = SelectAllParam True NewBuilder"
proof -
  have p: "LabelsParse testEnv ''app=web'' = Inr (LabelSelector [(''app=web'', ''app=web'')])"
    by (simp add: testEnv_def Contains_def)
  have ne: "\<not> SelectorEmpty testEnv (LabelSelector [(''app=web'', ''app=web'')])"
    by (simp add: testEnv_def)
  have n: "selector NewBuilder = None" "\<not> selectAll NewBuilder"
    by (simp_all add: NewBuilder_def)
  have sa: "selectAll (SelectAllParam True NewBuilder)"
    by (simp add: SelectAllParam_def NewBuilder_def)
  have sa_eq: "SelectAllParam True NewBuilder = NewBuilder\<lparr>selectAll := True\<rparr>"
    by (simp add: SelectAllParam_def NewBuilder_def)
  have sel: "selector (SelectorParam testEnv ''app=web'' NewBuilder) \<noteq> None"
    using p ne n by (simp add: SelectorParam_def Selector_def)
  have p0: "LabelsParse testEnv '''' = Inr (LabelSelector [])"
    by (simp add: testEnv_def)
  have e0: "SelectorEmpty testEnv (LabelSelector [])"
    by (simp add: testEnv_def)
  have er: "errs NewBuilder = []"
    by (simp add: NewBuilder_def)
  note a = C8_select_all_and_selector
             [of testEnv "''app=web''" "LabelSelector [(''app=web'', ''app=web'')]" NewBuilder]
  note c = C8_select_all_and_selector [of testEnv "''''" "LabelSelector []" NewBuilder]
  have o1: "errs (SelectorParam testEnv ''app=web'' (SelectAllParam True NewBuilder)) =
       [Errorf ''found non empty selector %q with previously set 'all' parameter. '' [ArgQ ''app=web'']]"
    using a p ne n er by simp
  have o2: "errs (SelectAllParam True (SelectorParam testEnv ''app=web'' NewBuilder)) =
       [Errorf ''setting 'all' parameter but found a non empty selector. '' []]"
    using a p ne n er by simp
  have o3: "SelectorParam testEnv '''' (SelectAllParam True NewBuilder) = SelectAllParam True NewBuilder"
    using c p0 e0 sa_eq by simp
  from p ne n sa sel p0 e0 o1 o2 o3 show ?thesis by blast
qed

subsection \<open>The overlay of Do\<close>

lemma helpers_selector [simp]: "helpers (b\<lparr>selector := s\<rparr>) = helpers b"
  by (simp add: helpers_def)

lemma visitorResult_builder:
  "fst (snd (visitorResult e b)) = b \<or>
   fst (snd (visitorResult e b)) = b\<lparr>selector := Some (Everything e)\<rparr>"
  by (simp add: visitorResult_def modeResult_def Let_def split: prod.splits)

lemma Do_overlay:
  assumes "err (fst (visitorResult e b)) = None"
  shows "Do e b =
           (case visitorResult e b of
              (r, b1, tr) \<Rightarrow>
                (r\<lparr>visitor :=
                    NewDecoratedVisitor
                      (if flatten b then NewFlattenListVisitor (visitor r) else visitor r)
                      (helpers b)\<rparr>, b1, tr))"
proof -
  obtain r b1 tr where v: "visitorResult e b = (r, b1, tr)"
    by (cases "visitorResult e b") auto
  have "b1 = b \<or> b1 = b\<lparr>selector := Some (Everything e)\<rparr>"
    using visitorResult_builder [of e b] v by simp
  then have "flatten b1 = flatten b" "helpers b1 = helpers b" by auto
  then show ?thesis using assms v by (simp add: Do_def)
qed

lemma pathLatestFlatten_eq:
  "pathLatestFlatten =
     NewBuilder\<lparr>paths := [PathVisitor ''pod.json'' False], latest := True, flatten := True\<rparr>"
  by (simp add: pathLatestFlatten_def Flatten_def Latest_def NewBuilder_def testEnv_def
      prefix_def)

lemma visitorResult_pathLatestFlatten:
  "visitorResult testEnv pathLatestFlatten =
     (\<lparr>singular = True, err = None,
       visitor = NewDecoratedVisitor
                   (NewFlattenListVisitor (VisitorList [PathVisitor ''pod.json'' False]))
                   [RetrieveLatest],
       sources = [PathVisitor ''pod.json'' False]\<rparr>, pathLatestFlatten, [])"
  by (simp add: pathLatestFlatten_eq visitorResult_def modeResult_def Let_def pathResult_def NewBuilder_def)

lemma Do_pathLatestFlatten:
  "Do testEnv pathLatestFlatten =
     (\<lparr>singular = True, err = None,
       visitor = NewDecoratedVisitor
                   (NewFlattenListVisitor
                      (NewDecoratedVisitor
                         (NewFlattenListVisitor (VisitorList [PathVisitor ''pod.json'' False]))
                         [RetrieveLatest]))
                   [FilterNamespace, RetrieveLazy],
       sources = [PathVisitor ''pod.json'' False]\<rparr>, pathLatestFlatten, [])"
  by (simp add: Do_def visitorResult_pathLatestFlatten)
     (simp add: pathLatestFlatten_eq helpers_def NewBuilder_def)

text \<open>
  C6, as the specification states it, fails: for one file with latest and flatten set,
  the path branch has already wrapped the list in a flatten visitor and the eager
  refresh, and \<open>Do\<close> wraps a second flatten visitor around them and adds the lazy
  refresh as well; the result differs from the overlay the specification describes.
\<close>

theorem C6_flatten_applied_twice:
  "paths pathLatestFlatten \<noteq> [] \<and> latest pathLatestFlatten \<and> flatten pathLatestFlatten
   \<and> err (fst (visitorResult testEnv pathLatestFlatten)) = None
   \<and> flattenCount (visitor (fst (visitorResult testEnv pathLatestFlatten))) = 1
   \<and> flattenCount (visitor (fst (Do testEnv pathLatestFlatten))) = 2
   \<and> fst (Do testEnv pathLatestFlatten) \<noteq>
       Do_overlay_spec pathLatestFlatten (fst (visitorResult testEnv pathLatestFlatten))"
  by (simp add: Do_pathLatestFlatten visitorResult_pathLatestFlatten Do_overlay_spec_def)
     (simp add: pathLatestFlatten_eq NewBuilder_def)

text \<open>
  C6, amended.  On an error-free result of \<open>visitorResult\<close>, \<open>Do\<close> wraps the visitor
  in a flatten visitor whenever flatten is requested, whatever the mode branch did, and
  then decorates it with, in this order: the namespace default (if requested), the
  namespace requirement (if requested), the namespace filter (always) and the lazy
  refresh whenever latest is requested, whether or not the eager refresh was applied.
  In particular, in path mode with latest and flatten set the visitor of \<open>Do\<close> is
  flatten over the eager refresh over flatten over the list of paths.
\<close>

theorem C6_Do_overlay_order:
  "err (fst (visitorResult e b)) = None \<Longrightarrow>
   Do e b =
     (case visitorResult e b of
        (r, b1, tr) \<Rightarrow>
          (r\<lparr>visitor :=
              NewDecoratedVisitor
                (if flatten b then NewFlattenListVisitor (visitor r) else visitor r)
                ((if defaultNamespace b then [SetNamespace (namespace b)] else [])
                 @ (if requireNamespace b then [RequireNamespaceFunc (namespace b)] else [])
                 @ [FilterNamespace]
                 @ (if latest b then [RetrieveLazy] else []))\<rparr>, b1, tr))
   \<and> (errs b = [] \<and> \<not> selectAll b \<and> selector b = None \<and> resourceTuples b = []
        \<and> names b = [] \<and> paths b \<noteq> [] \<and> latest b \<and> flatten b \<longrightarrow>
      visitor (fst (Do e b)) =
        NewDecoratedVisitor
          (NewFlattenListVisitor
             (NewDecoratedVisitor
                (NewFlattenListVisitor
                   (if continueOnError b then EagerVisitorList (paths b)
                    else VisitorList (paths b)))
                [RetrieveLatest]))
          ((if defaultNamespace b then [SetNamespace (namespace b)] else [])
           @ (if requireNamespace b then [RequireNamespaceFunc (namespace b)] else [])
           @ [FilterNamespace, RetrieveLazy]))"
proof -
  assume ok: "err (fst (visitorResult e b)) = None"
  have first: "Do e b =
     (case visitorResult e b of
        (r, b1, tr) \<Rightarrow>
          (r\<lparr>visitor :=
              NewDecoratedVisitor
                (if flatten b then NewFlattenListVisitor (visitor r) else visitor r)
                ((if defaultNamespace b then [SetNamespace (namespace b)] else [])
                 @ (if requireNamespace b then [RequireNamespaceFunc (namespace b)] else [])
                 @ [FilterNamespace]
                 @ (if latest b then [RetrieveLazy] else []))\<rparr>, b1, tr))"
    using Do_overlay [OF ok] by (simp add: helpers_def)
  have second: "visitor (fst (Do e b)) =
        NewDecoratedVisitor
          (NewFlattenListVisitor
             (NewDecoratedVisitor
                (NewFlattenListVisitor
                   (if continueOnError b then EagerVisitorList (paths b)
                    else VisitorList (paths b)))
                [RetrieveLatest]))
          ((if defaultNamespace b then [SetNamespace (namespace b)] else [])
           @ (if requireNamespace b then [RequireNamespaceFunc (namespace b)] else [])
           @ [FilterNamespace, RetrieveLazy])"
    if h: "errs b = [] \<and> \<not> selectAll b \<and> selector b = None \<and> resourceTuples b = []
        \<and> names b = [] \<and> paths b \<noteq> [] \<and> latest b \<and> flatten b"
  proof -
    have res: "resources b = []"
      using ok h by (simp add: visitorResult_def modeResult_def Let_def pathResult_def split: if_splits)
    have "fst (visitorResult e b) =
            \<lparr>singular = (\<not> dir b \<and> \<not> stream b \<and> length (paths b) = 1), err = None,
             visitor = NewDecoratedVisitor
                (NewFlattenListVisitor
                   (if continueOnError b then EagerVisitorList (paths b)
                    else VisitorList (paths b)))
                [RetrieveLatest],
             sources = paths b\<rparr>"
      using h res by (simp add: visitorResult_def modeResult_def Let_def pathResult_def)
    then show ?thesis using first h by (simp split: prod.splits)
  qed
  from first second show ?thesis by blast
qed

theorem C6_Do_overlay_order_witness:
  "err (fst (visitorResult testEnv pathLatestFlatten)) = None
   \<and> errs pathLatestFlatten = [] \<and> \<not> selectAll pathLatestFlatten
   \<and> selector pathLatestFlatten = None \<and> resourceTuples pathLatestFlatten = []
   \<and> names pathLatestFlatten = [] \<and> paths pathLatestFlatten \<noteq> []
   \<and> latest pathLatestFlatten \<and> flatten pathLatestFlatten
   \<and> visitor (fst (Do testEnv pathLatestFlatten)) =
        NewDecoratedVisitor
          (NewFlattenListVisitor
             (NewDecoratedVisitor
                (NewFlattenListVisitor (VisitorList [PathVisitor ''pod.json'' False]))
                [RetrieveLatest]))
          [FilterNamespace, RetrieveLazy]"
proof -
  have ok: "err (fst (visitorResult testEnv pathLatestFlatten)) = None"
    by (simp add: visitorResult_pathLatestFlatten)
  have h: "errs pathLatestFlatten = [] \<and> \<not> selectAll pathLatestFlatten
   \<and> selector pathLatestFlatten = None \<and> resourceTuples pathLatestFlatten = []
   \<and> names pathLatestFlatten = [] \<and> paths pathLatestFlatten \<noteq> []
   \<and> latest pathLatestFlatten \<and> flatten pathLatestFlatten"
    by (simp add: pathLatestFlatten_eq NewBuilder_def)
  have f: "\<not> continueOnError pathLatestFlatten" "\<not> defaultNamespace pathLatestFlatten"
      "\<not> requireNamespace pathLatestFlatten"
      "paths pathLatestFlatten = [PathVisitor ''pod.json'' False]"
    by (simp_all add: pathLatestFlatten_eq NewBuilder_def)
  show ?thesis using ok h f C6_Do_overlay_order [OF ok, THEN conjunct2] by simp
qed

subsection \<open>The singular flag\<close>

lemma oneTuple_eq:
  "oneTuple = NewBuilder\<lparr>resourceTuples := [\<lparr>Resource = ''pods'', Name = ''foo''\<rparr>],
                         namespace := ''default''\<rparr>"
  by (simp add: oneTuple_def NamespaceParam_def ResourceTypeOrNameArgs_def noClientEnv_def
      testEnv_def hasCombinedTypeArgs_def Contains_def SplitResourceArgument_def NewBuilder_def)

lemma oneName_eq:
  "oneName = NewBuilder\<lparr>names := [''foo''], resources := [''pods''], namespace := ''default''\<rparr>"
  by (simp add: oneName_def NamespaceParam_def ResourceTypeOrNameArgs_def noClientEnv_def
      testEnv_def hasCombinedTypeArgs_def Contains_def SplitResourceArgument_def NewBuilder_def
      ResourceTypes_def)

lemma tupleClients_ok:
  assumes "\<forall>m. \<exists>c. ClientForMapping e m = Inr c"
  shows "\<exists>clients tr. tupleClients e ms cl = (Inr clients, tr)"
proof (induction ms arbitrary: cl)
  case Nil
  show ?case by simp
next
  case (Cons km ms)
  obtain k m where km: "km = (k, m)" by (cases km) auto
  from assms obtain c where c: "ClientForMapping e m = Inr c" by blast
  show ?case
  proof (cases "map_of cl (clientKey m) \<noteq> None")
    case True
    then show ?thesis using Cons.IH [of cl] km by simp
  next
    case False
    from Cons.IH [of "AList.update (clientKey m) c cl"]
    obtain clients tr where "tupleClients e ms (AList.update (clientKey m) c cl) = (Inr clients, tr)"
      by blast
    then show ?thesis using False km c by simp
  qed
qed

lemma tupleResult_singular:
  assumes "\<forall>m. \<exists>c. ClientForMapping e m = Inr c"
  shows "singular (fst (tupleResult e b)) = (length (resourceTuples b) = 1)"
proof -
  have cl: "\<And>ms. \<exists>clients tr. tupleClients e ms [] = (Inr clients, tr)"
    using tupleClients_ok [OF assms] by blast
  show ?thesis
  proof (cases "resourceTupleMappings e b")
    case (Pair res tr)
    show ?thesis
    proof (cases res)
      case (Inl er)
      with Pair show ?thesis by (simp add: tupleResult_def Let_def)
    next
      case (Inr mappings)
      from cl [of "MapRange e mappings"] obtain clients tr'
        where c: "tupleClients e (MapRange e mappings) [] = (Inr clients, tr')" by blast
      with Pair Inr show ?thesis
        by (simp add: tupleResult_def Let_def split: sum.splits)
    qed
  qed
qed

lemma nameResult_singular:
  assumes "\<forall>m. \<exists>c. ClientForMapping e m = Inr c"
  shows "singular (fst (nameResult e b)) = (length (names b) = 1)"
proof (cases "resourceMappings e b")
  case (Pair res tr)
  show ?thesis
  proof (cases res)
    case (Inl er)
    with Pair show ?thesis by (simp add: nameResult_def Let_def)
  next
    case (Inr mappings)
    show ?thesis
    proof (cases mappings)
      case Nil
      with Pair Inr show ?thesis by (simp add: nameResult_def Let_def)
    next
      case (Cons m ms)
      from assms obtain c where "ClientForMapping e m = Inr c" by blast
      with Pair Inr Cons show ?thesis
        by (simp add: nameResult_def Let_def split: sum.splits prod.splits)
    qed
  qed
qed

lemma selectorResult_singular: "\<not> singular (fst (selectorResult e b sel))"
  by (simp add: selectorResult_def split: sum.splits prod.splits)

lemma pathResult_singular:
  "singular (fst (pathResult b)) = (\<not> dir b \<and> \<not> stream b \<and> length (paths b) = 1)"
  by (simp add: pathResult_def Let_def)

text \<open>
  Where no client construction fails, the flag is as specified: false in selector
  mode, "exactly one tuple" in tuple mode, "exactly one name" in name mode, and "exactly
  one path, no directory, no stream" in path mode.
\<close>

lemma singular_without_client_failure:
  assumes "\<forall>m. \<exists>c. ClientForMapping e m = Inr c" and "errs b = []"
  shows "singular (fst (visitorResult e b)) =
           (if selectAll b \<or> selector b \<noteq> None then False
            else if resourceTuples b \<noteq> [] then length (resourceTuples b) = 1
            else if names b \<noteq> [] then length (names b) = 1
            else if paths b \<noteq> [] then \<not> dir b \<and> \<not> stream b \<and> length (paths b) = 1
            else False)"
proof (cases "selectAll b \<or> selector b \<noteq> None")
  case True
  then show ?thesis
    using assms(2) selectorResult_singular [of e]
    by (auto simp: visitorResult_def modeResult_def Let_def)
next
  case False
  then have s: "\<not> selectAll b" "selector b = None" by auto
  show ?thesis
    using s assms(2) tupleResult_singular [OF assms(1), of b]
      nameResult_singular [OF assms(1), of b] pathResult_singular [of b]
    by (simp add: visitorResult_def modeResult_def Let_def)
qed

text \<open>
  C3 fails where the construction of the client fails: with exactly one tuple (or
  exactly one name) and a mapper that cannot construct a client, the branch returns a
  result that carries only the error, so its singular flag is false, although every other
  error of the same branch is returned with the flag set.
\<close>

theorem C3_singular_lost_on_client_error:
  "errs oneTuple = [] \<and> \<not> selectAll oneTuple \<and> selector oneTuple = None
   \<and> resourceTuples oneTuple = [\<lparr>Resource = ''pods'', Name = ''foo''\<rparr>]
   \<and> visitorResult noClientEnv oneTuple =
       (\<lparr>singular = False, err = Some (External ''no client''), visitor = NilVisitor,
         sources = []\<rparr>,
        oneTuple,
        [EvVersionAndKindForResource ''pods'', EvRESTMapping ''Pod'' ''v1'',
         EvClientForMapping podsMapping])
   \<and> errs oneName = [] \<and> \<not> selectAll oneName \<and> selector oneName = None
   \<and> resourceTuples oneName = [] \<and> names oneName = [''foo'']
   \<and> visitorResult noClientEnv oneName =
       (\<lparr>singular = False, err = Some (External ''no client''), visitor = NilVisitor,
         sources = []\<rparr>,
        oneName,
        [EvVersionAndKindForResource ''pods'', EvRESTMapping ''Pod'' ''v1'',
         EvClientForMapping podsMapping])"
proof -
  have t: "visitorResult noClientEnv oneTuple =
       (\<lparr>singular = False, err = Some (External ''no client''), visitor = NilVisitor,
         sources = []\<rparr>,
        oneTuple,
        [EvVersionAndKindForResource ''pods'', EvRESTMapping ''Pod'' ''v1'',
         EvClientForMapping podsMapping])"
    by (simp add: oneTuple_eq visitorResult_def modeResult_def NewBuilder_def tupleResult_def
        resourceTupleMappings_def noClientEnv_def testEnv_def podsMapping_def clientKey_def)
  have n: "visitorResult noClientEnv oneName =
       (\<lparr>singular = False, err = Some (External ''no client''), visitor = NilVisitor,
         sources = []\<rparr>,
        oneName,
        [EvVersionAndKindForResource ''pods'', EvRESTMapping ''Pod'' ''v1'',
         EvClientForMapping podsMapping])"
    by (simp add: oneName_eq visitorResult_def modeResult_def NewBuilder_def nameResult_def
        resourceMappings_def noClientEnv_def testEnv_def podsMapping_def)
  have f: "errs oneTuple = [] \<and> \<not> selectAll oneTuple \<and> selector oneTuple = None
     \<and> resourceTuples oneTuple = [\<lparr>Resource = ''pods'', Name = ''foo''\<rparr>]"
    by (simp add: oneTuple_eq NewBuilder_def)
  have g: "errs oneName = [] \<and> \<not> selectAll oneName \<and> selector oneName = None
     \<and> resourceTuples oneName = [] \<and> names oneName = [''foo'']"
    by (simp add: oneName_eq NewBuilder_def)
  from t n f g show ?thesis by blast
qed

subsection \<open>The single resource type policy\<close>

lemma canonicalInv_step:
  assumes "canonicalInv mappings canonical" and "map_of mappings r = None"
  shows "canonicalInv (AList.update r m (AList.update (MappingResource m) m mappings))
           (List.insert (MappingResource m) canonical)"
proof -
  have notin: "r \<notin> set canonical"
    using assms by (auto simp: canonicalInv_def)
  show ?thesis
    unfolding canonicalInv_def
  proof (intro conjI allI impI ballI)
    show "distinct (List.insert (MappingResource m) canonical)"
      using assms(1) by (simp add: canonicalInv_def)
  next
    fix k m'
    assume "map_of (AList.update r m (AList.update (MappingResource m) m mappings)) k = Some m'"
    then show "MappingResource m' \<in> set (List.insert (MappingResource m) canonical)"
      using assms(1) by (auto simp: canonicalInv_def update_conv' split: if_splits)
  next
    fix c
    assume c: "c \<in> set (List.insert (MappingResource m) canonical)"
    show "\<exists>m'. map_of (AList.update r m (AList.update (MappingResource m) m mappings)) c = Some m'
                \<and> MappingResource m' = c"
    proof (cases "c = MappingResource m")
      case True
      then show ?thesis by (simp add: update_conv')
    next
      case False
      with c have "c \<in> set canonical" by simp
      moreover from this notin have "c \<noteq> r" by auto
      ultimately show ?thesis
        using assms(1) False by (auto simp: canonicalInv_def update_conv')
    qed
  qed
qed

lemma resourceTupleMappings_loop_inv:
  assumes "resourceTupleMappings_loop e rs mappings canonical = (Inr (mappings', canonical'), tr)"
    and "canonicalInv mappings canonical"
  shows "canonicalInv mappings' canonical'"
  using assms
proof (induction rs arbitrary: mappings canonical tr)
  case Nil
  then show ?case by simp
next
  case (Cons r rs)
  show ?case
  proof (cases "map_of mappings (Resource r) \<noteq> None")
    case True
    with Cons.prems have "resourceTupleMappings_loop e rs mappings canonical
                            = (Inr (mappings', canonical'), tr)" by simp
    then show ?thesis using Cons.IH Cons.prems(2) by blast
  next
    case False
    then have none: "map_of mappings (Resource r) = None" by simp
    from Cons.prems(1) none obtain version kind where
      vk: "VersionAndKindForResource e (Resource r) = Inr (version, kind)"
      by (cases "VersionAndKindForResource e (Resource r)") auto
    from Cons.prems(1) none vk obtain m where
      m: "RESTMappingFor e kind version = Inr m"
      by (cases "RESTMappingFor e kind version") auto
    obtain res tr' where
      rec: "resourceTupleMappings_loop e rs
              (AList.update (Resource r) m (AList.update (MappingResource m) m mappings))
              (List.insert (MappingResource m) canonical) = (res, tr')"
      by (cases "resourceTupleMappings_loop e rs
              (AList.update (Resource r) m (AList.update (MappingResource m) m mappings))
              (List.insert (MappingResource m) canonical)") auto
    with Cons.prems(1) none vk m have "res = Inr (mappings', canonical')" by simp
    with rec show ?thesis
      using Cons.IH canonicalInv_step [OF Cons.prems(2) none] by blast
  qed
qed

lemma canonical_names_of_table:
  assumes "canonicalInv mappings canonical"
  shows "length canonical = card (MappingResource ` ran (map_of mappings))"
proof -
  have "set canonical = MappingResource ` ran (map_of mappings)"
    using assms by (auto simp: canonicalInv_def ran_def) force
  moreover have "length canonical = card (set canonical)"
    using assms by (simp add: canonicalInv_def distinct_card)
  ultimately show ?thesis by simp
qed

lemma twoSpellingsBulk_eq:
  "twoSpellingsBulk =
     NewBuilder\<lparr>resources := [''pods'', ''pod''], selector := Some (LabelSelector []),
                singleResourceType := True\<rparr>"
  by (simp add: twoSpellingsBulk_def SingleResourceType_def ResourceTypeOrNameArgs_def
      testEnv_def hasCombinedTypeArgs_def Contains_def SplitResourceArgument_def NewBuilder_def
      ResourceTypes_def)

lemma twoSpellingsTuples_eq:
  "twoSpellingsTuples =
     NewBuilder\<lparr>resourceTuples := [\<lparr>Resource = ''pods'', Name = ''foo''\<rparr>,
                                   \<lparr>Resource = ''pod'', Name = ''bar''\<rparr>],
                singleResourceType := True\<rparr>"
  by (simp add: twoSpellingsTuples_def SingleResourceType_def ResourceTypeOrNameArgs_def
      testEnv_def hasCombinedTypeArgs_def Contains_def SplitResourceArgument_def NewBuilder_def)

lemma twoTypesTuples_eq:
  "twoTypesTuples =
     NewBuilder\<lparr>resourceTuples := [\<lparr>Resource = ''pods'', Name = ''foo''\<rparr>,
                                   \<lparr>Resource = ''services'', Name = ''bar''\<rparr>],
                singleResourceType := True\<rparr>"
  by (simp add: twoTypesTuples_def SingleResourceType_def ResourceTypeOrNameArgs_def
      testEnv_def hasCombinedTypeArgs_def Contains_def SplitResourceArgument_def NewBuilder_def)

text \<open>
  The resolution of resource/name tuples counts canonical resource names: it fails with
  the error of the loop if a tuple does not resolve, and otherwise fails with "you may
  only specify a single resource type" exactly when the policy flag is set and more than
  one canonical resource name appears among the mappings of the table.
\<close>

lemma resourceTupleMappings_counts_canonical:
  "resourceTupleMappings e b =
     (case resourceTupleMappings_loop e (resourceTuples b) [] [] of
        (Inl er, tr) \<Rightarrow> (Inl er, tr)
      | (Inr (mappings, canonical), tr) \<Rightarrow>
          if 1 < card (MappingResource ` ran (map_of mappings)) \<and> singleResourceType b
          then (Inl (Errorf ''you may only specify a single resource type'' []), tr)
          else (Inr mappings, tr))"
proof (cases "resourceTupleMappings_loop e (resourceTuples b) [] []")
  case (Pair res tr)
  show ?thesis
  proof (cases res)
    case (Inl er)
    with Pair show ?thesis by (simp add: resourceTupleMappings_def)
  next
    case (Inr mc)
    obtain mappings canonical where mc: "mc = (mappings, canonical)" by (cases mc) auto
    have l: "resourceTupleMappings_loop e (resourceTuples b) [] [] =
               (Inr (mappings, canonical), tr)"
      using Pair Inr mc by simp
    have "canonicalInv [] []" by (simp add: canonicalInv_def)
    with l have "canonicalInv mappings canonical"
      by (rule resourceTupleMappings_loop_inv)
    then have "length canonical = card (MappingResource ` ran (map_of mappings))"
      by (rule canonical_names_of_table)
    then show ?thesis using l by (simp add: resourceTupleMappings_def)
  qed
qed

lemma resourceTupleMappings_twoSpellings:
  "resourceTupleMappings testEnv twoSpellingsTuples =
        (Inr [(''pods'', podsMapping), (''pod'', podsMapping)],
         [EvVersionAndKindForResource ''pods'', EvRESTMapping ''Pod'' ''v1'',
          EvVersionAndKindForResource ''pod'', EvRESTMapping ''Pod'' ''v1''])"
proof -
  have l1: "resourceTupleMappings_loop testEnv (resourceTuples twoSpellingsTuples) [] [] =
        (Inr ([(''pods'', podsMapping), (''pod'', podsMapping)], [''pods'']),
         [EvVersionAndKindForResource ''pods'', EvRESTMapping ''Pod'' ''v1'',
          EvVersionAndKindForResource ''pod'', EvRESTMapping ''Pod'' ''v1''])"
    by (simp add: twoSpellingsTuples_eq NewBuilder_def testEnv_def podsMapping_def)
  have i0: "canonicalInv [] []"
    by (simp add: canonicalInv_def)
  from canonical_names_of_table [OF resourceTupleMappings_loop_inv [OF l1 i0]]
  have c1: "card (MappingResource ` ran (map_of [(''pods'', podsMapping), (''pod'', podsMapping)]))
              = 1"
    by simp
  show ?thesis
    using resourceTupleMappings_counts_canonical [of testEnv twoSpellingsTuples] l1 c1 by simp
qed

lemma resourceTupleMappings_twoTypes:
  "resourceTupleMappings testEnv twoTypesTuples =
        (Inl (Errorf ''you may only specify a single resource type'' []),
         [EvVersionAndKindForResource ''pods'', EvRESTMapping ''Pod'' ''v1'',
          EvVersionAndKindForResource ''services'', EvRESTMapping ''Service'' ''v1''])"
proof -
  have s2: "singleResourceType twoTypesTuples"
    by (simp add: twoTypesTuples_eq NewBuilder_def)
  have l2: "resourceTupleMappings_loop testEnv (resourceTuples twoTypesTuples) [] [] =
        (Inr ([(''pods'', podsMapping), (''services'', servicesMapping)], [''services'', ''pods'']),
         [EvVersionAndKindForResource ''pods'', EvRESTMapping ''Pod'' ''v1'',
          EvVersionAndKindForResource ''services'', EvRESTMapping ''Service'' ''v1''])"
    by (simp add: twoTypesTuples_eq NewBuilder_def testEnv_def podsMapping_def
        servicesMapping_def)
  have i0: "canonicalInv [] []"
    by (simp add: canonicalInv_def)
  from canonical_names_of_table [OF resourceTupleMappings_loop_inv [OF l2 i0]]
  have c2: "card (MappingResource `
                    ran (map_of [(''pods'', podsMapping), (''services'', servicesMapping)])) = 2"
    by simp
  show ?thesis
    using resourceTupleMappings_counts_canonical [of testEnv twoTypesTuples] l2 c2 s2 by simp
qed

text \<open>
  C5.  The claim holds for the resolution of tuples and is broken by bulk resolution.
  With the policy flag set and the two strings "pods" and "pod", which resolve to the
  same mapping (one canonical resource name among the resolved mappings),
  \<open>resourceMappings\<close> fails with "you may only specify a single resource type" before
  it resolves anything, and so does \<open>visitorResult\<close>; the same two spellings given as
  tuples, with the same flag, are accepted by \<open>resourceTupleMappings\<close>.
\<close>

theorem C5_bulk_counts_raw_strings:
  "singleResourceType twoSpellingsBulk
   \<and> resources twoSpellingsBulk = [''pods'', ''pod'']
   \<and> resourceMappings_loop testEnv (resources twoSpellingsBulk) [] =
        (Inr [podsMapping, podsMapping],
         [EvVersionAndKindForResource ''pods'', EvRESTMapping ''Pod'' ''v1'',
          EvVersionAndKindForResource ''pod'', EvRESTMapping ''Pod'' ''v1''])
   \<and> card (MappingResource ` set [podsMapping, podsMapping]) = 1
   \<and> resourceMappings testEnv twoSpellingsBulk =
        (Inl (Errorf ''you may only specify a single resource type'' []), [])
   \<and> visitorResult testEnv twoSpellingsBulk =
        (\<lparr>singular = False,
          err = Some (Errorf ''you may only specify a single resource type'' []),
          visitor = NilVisitor, sources = []\<rparr>, twoSpellingsBulk, [])
   \<and> singleResourceType twoSpellingsTuples
   \<and> map Resource (resourceTuples twoSpellingsTuples) = [''pods'', ''pod'']
   \<and> resourceTupleMappings testEnv twoSpellingsTuples =
        (Inr [(''pods'', podsMapping), (''pod'', podsMapping)],
         [EvVersionAndKindForResource ''pods'', EvRESTMapping ''Pod'' ''v1'',
          EvVersionAndKindForResource ''pod'', EvRESTMapping ''Pod'' ''v1''])"
proof -
  have a: "singleResourceType twoSpellingsBulk" "resources twoSpellingsBulk = [''pods'', ''pod'']"
    by (simp_all add: twoSpellingsBulk_eq NewBuilder_def)
  have b: "resourceMappings_loop testEnv (resources twoSpellingsBulk) [] =
        (Inr [podsMapping, podsMapping],
         [EvVersionAndKindForResource ''pods'', EvRESTMapping ''Pod'' ''v1'',
          EvVersionAndKindForResource ''pod'', EvRESTMapping ''Pod'' ''v1''])"
    by (simp add: a(2) testEnv_def)
  have c: "card (MappingResource ` set [podsMapping, podsMapping]) = 1"
    by simp
  have d: "resourceMappings testEnv twoSpellingsBulk =
        (Inl (Errorf ''you may only specify a single resource type'' []), [])"
    using a by (simp add: resourceMappings_def)
  have e: "visitorResult testEnv twoSpellingsBulk =
        (\<lparr>singular = False,
          err = Some (Errorf ''you may only specify a single resource type'' []),
          visitor = NilVisitor, sources = []\<rparr>, twoSpellingsBulk, [])"
    by (simp add: twoSpellingsBulk_eq NewBuilder_def visitorResult_def modeResult_def
        selectorResult_def resourceMappings_def)
  have f: "singleResourceType twoSpellingsTuples"
      "map Resource (resourceTuples twoSpellingsTuples) = [''pods'', ''pod'']"
    by (simp_all add: twoSpellingsTuples_eq NewBuilder_def)
  note g = resourceTupleMappings_twoSpellings
  show ?thesis using a b c d e f g by (intro conjI)
qed

subsection \<open>Name mode\<close>

lemma nameInfos_fails:
  assumes "\<forall>x \<in> set pre. \<exists>i. InfoGet e (NewInfo c m ns x) = Inr i"
    and "InfoGet e (NewInfo c m ns n) = Inl er"
  shows "nameInfos e c m ns (pre @ n # post) vs =
           (Inl er, map (\<lambda>x. EvGet (NewInfo c m ns x)) (pre @ [n]))"
  using assms(1)
proof (induction pre arbitrary: vs)
  case Nil
  show ?case using assms(2) by simp
next
  case (Cons x pre)
  from Cons.prems obtain i where i: "InfoGet e (NewInfo c m ns x) = Inr i" by auto
  from Cons.prems have "\<forall>y \<in> set pre. \<exists>i. InfoGet e (NewInfo c m ns y) = Inr i" by simp
  from Cons.IH [OF this, of "vs @ [InfoVisitor i]"] i show ?case by simp
qed

lemma nameInfos_succeeds:
  assumes "\<forall>x \<in> set ns'. \<exists>i. InfoGet e (NewInfo c m ns x) = Inr i"
  shows "nameInfos e c m ns ns' vs =
           (Inr (vs @ map (\<lambda>x. InfoVisitor (projr (InfoGet e (NewInfo c m ns x)))) ns'),
            map (\<lambda>x. EvGet (NewInfo c m ns x)) ns')"
  using assms
proof (induction ns' arbitrary: vs)
  case Nil
  show ?case by simp
next
  case (Cons x xs)
  from Cons.prems obtain i where i: "InfoGet e (NewInfo c m ns x) = Inr i" by auto
  from Cons.prems have "\<forall>y \<in> set xs. \<exists>i. InfoGet e (NewInfo c m ns y) = Inr i" by simp
  from Cons.IH [OF this, of "vs @ [InfoVisitor i]"] i show ?case by simp
qed

lemma nameResult_reaches_fetch:
  assumes "paths b = []" and "resources b = [r]"
    and "VersionAndKindForResource e r = Inr (version, kind)"
    and "RESTMappingFor e kind version = Inr m"
    and "ClientForMapping e m = Inr c"
    and "\<not> (ScopeName m = RESTScopeNameNamespace \<and> namespace b = [])"
  shows "nameInfos e c m (selectorNamespace b m) (names b) [] = (Inl er, tr') \<Longrightarrow>
           nameResult e b =
             (\<lparr>singular = (length (names b) = 1), err = Some er, visitor = NilVisitor,
               sources = []\<rparr>,
              [EvVersionAndKindForResource r, EvRESTMapping kind version,
               EvClientForMapping m] @ tr')"
    and "nameInfos e c m (selectorNamespace b m) (names b) [] = (Inr visitors, tr') \<Longrightarrow>
           nameResult e b =
             (\<lparr>singular = (length (names b) = 1), err = None, visitor = VisitorList visitors,
               sources = visitors\<rparr>,
              [EvVersionAndKindForResource r, EvRESTMapping kind version,
               EvClientForMapping m] @ tr')"
proof -
  have rm: "resourceMappings e b =
              (Inr [m], [EvVersionAndKindForResource r, EvRESTMapping kind version])"
    using assms(2,3,4) by (simp add: resourceMappings_def)
  have guard: "(ScopeName m = RESTScopeNameNamespace \<and> namespace b = []) = False"
    using assms(6) by simp
  show "nameInfos e c m (selectorNamespace b m) (names b) [] = (Inl er, tr') \<Longrightarrow>
           nameResult e b =
             (\<lparr>singular = (length (names b) = 1), err = Some er, visitor = NilVisitor,
               sources = []\<rparr>,
              [EvVersionAndKindForResource r, EvRESTMapping kind version,
               EvClientForMapping m] @ tr')"
    using assms(1,2,5) rm by (simp add: nameResult_def Let_def guard)
  show "nameInfos e c m (selectorNamespace b m) (names b) [] = (Inr visitors, tr') \<Longrightarrow>
           nameResult e b =
             (\<lparr>singular = (length (names b) = 1), err = None, visitor = VisitorList visitors,
               sources = visitors\<rparr>,
              [EvVersionAndKindForResource r, EvRESTMapping kind version,
               EvClientForMapping m] @ tr')"
    using assms(1,2,5) rm by (simp add: nameResult_def Let_def guard)
qed

text \<open>
  C4.  In name mode (no accumulated error, no selector, no tuple, no path, one resource
  type that resolves to a mapping with a client and, if namespaced, a namespace),
  \<open>visitorResult\<close> builds an \<open>Info\<close> for each name in order and fetches it at once.
  If the fetch of a name fails, the result carries that error, no visitor and no sources,
  and the names after it are not fetched: the calls end with the failed fetch.  This is
  so whether or not \<open>continueOnError\<close> is set.  If every fetch succeeds, the result is
  the fail-fast list of the fetched infos.
\<close>

theorem C4_name_mode_fetches_inline:
  assumes "errs b = []" and "\<not> selectAll b" and "selector b = None"
    and "resourceTuples b = []" and "paths b = []" and "resources b = [r]"
    and "VersionAndKindForResource e r = Inr (version, kind)"
    and "RESTMappingFor e kind version = Inr m"
    and "ClientForMapping e m = Inr c"
    and "\<not> (ScopeName m = RESTScopeNameNamespace \<and> namespace b = [])"
    and "ns = selectorNamespace b m"
  shows "(names b = pre @ n # post
          \<and> (\<forall>x \<in> set pre. \<exists>i. InfoGet e (NewInfo c m ns x) = Inr i)
          \<and> InfoGet e (NewInfo c m ns n) = Inl er \<longrightarrow>
          visitorResult e (b\<lparr>continueOnError := coe\<rparr>) =
            (\<lparr>singular = (length (names b) = 1), err = Some er, visitor = NilVisitor,
              sources = []\<rparr>,
             b\<lparr>continueOnError := coe\<rparr>,
             [EvVersionAndKindForResource r, EvRESTMapping kind version, EvClientForMapping m]
             @ map (\<lambda>x. EvGet (NewInfo c m ns x)) (pre @ [n])))
         \<and> (names b \<noteq> []
          \<and> (\<forall>x \<in> set (names b). \<exists>i. InfoGet e (NewInfo c m ns x) = Inr i) \<longrightarrow>
          visitorResult e (b\<lparr>continueOnError := coe\<rparr>) =
            (\<lparr>singular = (length (names b) = 1), err = None,
              visitor = VisitorList
                (map (\<lambda>x. InfoVisitor (projr (InfoGet e (NewInfo c m ns x)))) (names b)),
              sources = map (\<lambda>x. InfoVisitor (projr (InfoGet e (NewInfo c m ns x)))) (names b)\<rparr>,
             b\<lparr>continueOnError := coe\<rparr>,
             [EvVersionAndKindForResource r, EvRESTMapping kind version, EvClientForMapping m]
             @ map (\<lambda>x. EvGet (NewInfo c m ns x)) (names b)))"
proof -
  let ?b = "b\<lparr>continueOnError := coe\<rparr>"
  have sn: "selectorNamespace ?b m = ns"
    using assms(11) by (simp add: selectorNamespace_def)
  have pb: "paths ?b = []" "resources ?b = [r]"
      "\<not> (ScopeName m = RESTScopeNameNamespace \<and> namespace ?b = [])"
      "names ?b = names b"
    using assms(5,6,10) by simp_all
  note nr = nameResult_reaches_fetch [OF pb(1) pb(2) assms(7) assms(8) assms(9) pb(3),
              unfolded sn pb(4)]
  have vr: "names b \<noteq> [] \<Longrightarrow>
            visitorResult e ?b = (fst (nameResult e ?b), ?b, snd (nameResult e ?b))"
    using assms(1-4) by (simp add: visitorResult_def modeResult_def Let_def)
  have fail: "visitorResult e ?b =
            (\<lparr>singular = (length (names b) = 1), err = Some er, visitor = NilVisitor,
              sources = []\<rparr>, ?b,
             [EvVersionAndKindForResource r, EvRESTMapping kind version, EvClientForMapping m]
             @ map (\<lambda>x. EvGet (NewInfo c m ns x)) (pre @ [n]))"
    if h: "names b = pre @ n # post
          \<and> (\<forall>x \<in> set pre. \<exists>i. InfoGet e (NewInfo c m ns x) = Inr i)
          \<and> InfoGet e (NewInfo c m ns n) = Inl er"
  proof -
    from h have ne: "names b \<noteq> []" by auto
    from h have "nameInfos e c m ns (names b) [] =
                   (Inl er, map (\<lambda>x. EvGet (NewInfo c m ns x)) (pre @ [n]))"
      using nameInfos_fails [of pre e c m ns n er post "[]"] by simp
    then show ?thesis using vr [OF ne] nr(1) by simp
  qed
  have ok: "visitorResult e ?b =
            (\<lparr>singular = (length (names b) = 1), err = None,
              visitor = VisitorList
                (map (\<lambda>x. InfoVisitor (projr (InfoGet e (NewInfo c m ns x)))) (names b)),
              sources = map (\<lambda>x. InfoVisitor (projr (InfoGet e (NewInfo c m ns x)))) (names b)\<rparr>,
             ?b,
             [EvVersionAndKindForResource r, EvRESTMapping kind version, EvClientForMapping m]
             @ map (\<lambda>x. EvGet (NewInfo c m ns x)) (names b))"
    if h: "names b \<noteq> []
          \<and> (\<forall>x \<in> set (names b). \<exists>i. InfoGet e (NewInfo c m ns x) = Inr i)"
  proof -
    from h have ne: "names b \<noteq> []" by simp
    from h have "nameInfos e c m ns (names b) [] =
           (Inr (map (\<lambda>x. InfoVisitor (projr (InfoGet e (NewInfo c m ns x)))) (names b)),
            map (\<lambda>x. EvGet (NewInfo c m ns x)) (names b))"
      using nameInfos_succeeds [of "names b" e c m ns "[]"] by simp
    then show ?thesis using vr [OF ne] nr(2) by simp
  qed
  from fail ok show ?thesis by blast
qed

lemma threeNames_eq:
  "threeNames =
     NewBuilder\<lparr>names := [''a'', ''missing'', ''c''], resources := [''pods''],
                namespace := ''default'', continueOnError := True\<rparr>"
  by (simp add: threeNames_def ContinueOnError_def NamespaceParam_def ResourceTypeOrNameArgs_def
      testEnv_def hasCombinedTypeArgs_def Contains_def SplitResourceArgument_def NewBuilder_def
      ResourceTypes_def)

theorem C4_name_mode_fetches_inline_witness:
  "errs threeNames = [] \<and> \<not> selectAll threeNames \<and> selector threeNames = None
   \<and> resourceTuples threeNames = [] \<and> paths threeNames = []
   \<and> resources threeNames = [''pods'']
   \<and> VersionAndKindForResource testEnv ''pods'' = Inr (''v1'', ''Pod'')
   \<and> RESTMappingFor testEnv ''Pod'' ''v1'' = Inr podsMapping
   \<and> ClientForMapping testEnv podsMapping = Inr (RESTClient 0)
   \<and> \<not> (ScopeName podsMapping = RESTScopeNameNamespace \<and> namespace threeNames = [])
   \<and> ''default'' = selectorNamespace threeNames podsMapping
   \<and> names threeNames = [''a''] @ ''missing'' # [''c'']
   \<and> InfoGet testEnv (NewInfo (RESTClient 0) podsMapping ''default'' ''a'') =
        Inr ((NewInfo (RESTClient 0) podsMapping ''default'' ''a'')\<lparr>Object := Some ''object''\<rparr>)
   \<and> InfoGet testEnv (NewInfo (RESTClient 0) podsMapping ''default'' ''missing'') =
        Inl (External ''not found'')
   \<and> continueOnError threeNames
   \<and> visitorResult testEnv threeNames =
        (\<lparr>singular = False, err = Some (External ''not found''), visitor = NilVisitor,
          sources = []\<rparr>,
         threeNames,
         [EvVersionAndKindForResource ''pods'', EvRESTMapping ''Pod'' ''v1'',
          EvClientForMapping podsMapping,
          EvGet (NewInfo (RESTClient 0) podsMapping ''default'' ''a''),
          EvGet (NewInfo (RESTClient 0) podsMapping ''default'' ''missing'')])"
proof -
  have f: "errs threeNames = []" "\<not> selectAll threeNames" "selector threeNames = None"
      "resourceTuples threeNames = []" "paths threeNames = []"
      "resources threeNames = [''pods'']"
    by (simp_all add: threeNames_eq NewBuilder_def)
  have g: "VersionAndKindForResource testEnv ''pods'' = Inr (''v1'', ''Pod'')"
      "RESTMappingFor testEnv ''Pod'' ''v1'' = Inr podsMapping"
      "ClientForMapping testEnv podsMapping = Inr (RESTClient 0)"
    by (simp_all add: testEnv_def)
  have h: "\<not> (ScopeName podsMapping = RESTScopeNameNamespace \<and> namespace threeNames = [])"
      "''default'' = selectorNamespace threeNames podsMapping"
    by (simp_all add: threeNames_eq NewBuilder_def selectorNamespace_def podsMapping_def)
  have n: "names threeNames = [''a''] @ ''missing'' # [''c'']"
    by (simp add: threeNames_eq NewBuilder_def)
  have ga: "InfoGet testEnv (NewInfo (RESTClient 0) podsMapping ''default'' ''a'') =
        Inr ((NewInfo (RESTClient 0) podsMapping ''default'' ''a'')\<lparr>Object := Some ''object''\<rparr>)"
    by (simp add: testEnv_def NewInfo_def)
  have gm: "InfoGet testEnv (NewInfo (RESTClient 0) podsMapping ''default'' ''missing'') =
        Inl (External ''not found'')"
    by (simp add: testEnv_def NewInfo_def)
  have coe: "continueOnError threeNames" "threeNames\<lparr>continueOnError := True\<rparr> = threeNames"
    by (simp_all add: threeNames_eq NewBuilder_def)
  have pre: "\<forall>x \<in> set [''a'']. \<exists>i. InfoGet testEnv (NewInfo (RESTClient 0) podsMapping ''default'' x) = Inr i"
    using ga by simp
  have len: "length (names threeNames) \<noteq> 1"
    by (simp add: n)
  have prem: "names threeNames = [''a''] @ ''missing'' # [''c'']
          \<and> (\<forall>x \<in> set [''a''].
                \<exists>i. InfoGet testEnv (NewInfo (RESTClient 0) podsMapping ''default'' x) = Inr i)
          \<and> InfoGet testEnv (NewInfo (RESTClient 0) podsMapping ''default'' ''missing'') =
                Inl (External ''not found'')"
    using n pre gm by (intro conjI)
  note inst = C4_name_mode_fetches_inline
            [OF f(1) f(2) f(3) f(4) f(5) f(6) g(1) g(2) g(3) h(1) h(2),
             THEN conjunct1, of "[''a'']" "''missing''" "[''c'']" "External ''not found''" True]
  have r: "visitorResult testEnv threeNames =
        (\<lparr>singular = False, err = Some (External ''not found''), visitor = NilVisitor,
          sources = []\<rparr>,
         threeNames,
         [EvVersionAndKindForResource ''pods'', EvRESTMapping ''Pod'' ''v1'',
          EvClientForMapping podsMapping,
          EvGet (NewInfo (RESTClient 0) podsMapping ''default'' ''a''),
          EvGet (NewInfo (RESTClient 0) podsMapping ''default'' ''missing'')])"
    using mp [OF inst prem] len unfolding coe(2) by simp
  show ?thesis using f g h n ga gm coe(1) r by (intro conjI)
qed

subsection \<open>Mixed selection modes\<close>

lemma builderInv_Path: "builderInv b \<Longrightarrow> builderInv (Path e ps b)"
proof (induction ps arbitrary: b)
  case Nil
  then show ?case by simp
next
  case (Cons p ps)
  have "builderInv
          (case Stat e p of
             StatNotExist \<Rightarrow>
               b\<lparr>errs := errs b @ [Errorf ''the path %q does not exist'' [ArgQ p]]\<rparr>
           | StatError er \<Rightarrow>
               b\<lparr>errs := errs b @ [Errorf ''the path %q cannot be accessed: %v'' [ArgQ p, ArgV er]]\<rparr>
           | StatInfo isDir \<Rightarrow>
               (if isDir
                then b\<lparr>dir := True,
                       paths := paths b @
                         [DirectoryVisitor p [''.json'', ''.yaml''] False (continueOnError b)]\<rparr>
                else b\<lparr>paths := paths b @ [PathVisitor p (continueOnError b)]\<rparr>))"
    using Cons.prems by (cases "Stat e p") (auto simp: builderInv_def)
  then show ?case using Cons.IH by simp
qed

lemma builderInv_FilenameParam: "builderInv b \<Longrightarrow> builderInv (FilenameParam e ps b)"
proof (induction ps arbitrary: b)
  case Nil
  then show ?case by simp
next
  case (Cons s ss)
  have a: "builderInv (Stdin b)"
    using Cons.prems by (simp add: builderInv_def Stdin_def Stream_def)
  have b: "builderInv (Path e [s] b)"
    using Cons.prems by (rule builderInv_Path)
  have c: "builderInv
             (case URLParse e s of
                Inl er \<Rightarrow>
                  b\<lparr>errs := errs b @
                    [Errorf ''the URL passed to filename %q is not valid: %v'' [ArgQ s, ArgV er]]\<rparr>
              | Inr u \<Rightarrow> URLs [u] b)"
    using Cons.prems by (cases "URLParse e s") (auto simp: builderInv_def URLs_def)
  show ?case
    using a b c Cons.IH by (simp del: Path.simps)
qed

lemma builderInv_resourceNameArgs: "builderInv b \<Longrightarrow> builderInv (resourceNameArgs args b)"
proof (induction args arbitrary: b)
  case Nil
  then show ?case by simp
next
  case (Cons s ss)
  have er: "\<And>m. builderInv (b\<lparr>errs := errs b @ [Errorf m []]\<rparr>)"
    using Cons.prems by (simp add: builderInv_def)
  have tu: "\<And>t. builderInv (b\<lparr>resourceTuples := resourceTuples b @ [t]\<rparr>)"
    using Cons.prems by (simp add: builderInv_def)
  show ?case
    using er tu Cons.IH by (simp split: list.splits)
qed

lemma hasCombinedTypeArgs_error:
  "hasCombinedTypeArgs args = (ok, Some er) \<Longrightarrow> isErrorf er"
  by (auto simp: hasCombinedTypeArgs_def Let_def split: if_splits)

lemma builderInv_ResourceTypeOrNameArgs:
  assumes "builderInv b"
  shows "builderInv (ResourceTypeOrNameArgs e allowEmptySelector args b)"
proof -
  obtain ok oer where h: "hasCombinedTypeArgs (replaceAliases e args) = (ok, oer)"
    by (cases "hasCombinedTypeArgs (replaceAliases e args)") auto
  show ?thesis
  proof (cases ok)
    case True
    show ?thesis
    proof (cases oer)
      case None
      with h True show ?thesis
        using builderInv_resourceNameArgs [OF assms] by (simp add: ResourceTypeOrNameArgs_def)
    next
      case (Some er)
      with h have "isErrorf er" using hasCombinedTypeArgs_error by blast
      with h True Some assms show ?thesis
        by (simp add: ResourceTypeOrNameArgs_def builderInv_def)
    qed
  next
    case False
    show ?thesis
      using h False assms SplitResourceArgument_not_Nil
      by (auto simp: ResourceTypeOrNameArgs_def builderInv_def ResourceTypes_def Let_def)
  qed
qed

lemma builderInv_ResourceTypeAndNameArgs:
  "builderInv b \<Longrightarrow> builderInv (ResourceTypeAndNameArgs args b)"
  using SplitResourceArgument_not_Nil
  by (auto simp: ResourceTypeAndNameArgs_def builderInv_def ResourceTypes_def)

lemma builderInv_SelectorParam: "builderInv b \<Longrightarrow> builderInv (SelectorParam e s b)"
  by (cases "LabelsParse e s") (auto simp: SelectorParam_def builderInv_def Selector_def)

lemma builderInv_Do: "builderInv b \<Longrightarrow> builderInv (fst (snd (Do e b)))"
proof -
  assume i: "builderInv b"
  obtain r b1 tr where v: "visitorResult e b = (r, b1, tr)"
    by (cases "visitorResult e b") auto
  have "b1 = b \<or> b1 = b\<lparr>selector := Some (Everything e)\<rparr>"
    using visitorResult_builder [of e b] v by simp
  then have "builderInv b1" using i by (auto simp: builderInv_def)
  then show ?thesis using v by (simp add: Do_def Let_def)
qed

lemma builderInv_applyCall: "builderInv b \<Longrightarrow> builderInv (applyCall e b c)"
proof (cases c)
  case (FilenameParamCall ps)
  assume "builderInv b"
  then show ?thesis using FilenameParamCall by (simp add: builderInv_FilenameParam)
next
  case (PathCall ps)
  assume "builderInv b"
  then show ?thesis using PathCall by (simp add: builderInv_Path)
next
  case (SelectorParamCall s)
  assume "builderInv b"
  then show ?thesis using SelectorParamCall by (simp add: builderInv_SelectorParam)
next
  case (ResourceTypeOrNameArgsCall a args)
  assume "builderInv b"
  then show ?thesis
    using ResourceTypeOrNameArgsCall by (simp add: builderInv_ResourceTypeOrNameArgs)
next
  case (ResourceTypeAndNameArgsCall args)
  assume "builderInv b"
  then show ?thesis
    using ResourceTypeAndNameArgsCall by (simp add: builderInv_ResourceTypeAndNameArgs)
next
  case DoCall
  assume "builderInv b"
  then show ?thesis using DoCall by (simp add: builderInv_Do)
qed (auto simp: builderInv_def URLs_def Stdin_def Stream_def ResourceTypes_def Selector_def
      NamespaceParam_def DefaultNamespace_def RequireNamespace_def SelectAllParam_def
      Flatten_def Latest_def ContinueOnError_def SingleResourceType_def)

lemma builderInv_foldl: "builderInv b \<Longrightarrow> builderInv (foldl (applyCall e) b cs)"
  by (induction cs arbitrary: b) (simp_all add: builderInv_applyCall)

lemma builderInv_configure: "builderInv (configure e cs)"
  unfolding configure_def
  by (rule builderInv_foldl) (simp add: builderInv_def NewBuilder_def)

lemma selectorResult_conflict:
  assumes "names b \<noteq> [] \<or> resourceTuples b \<noteq> [] \<or> paths b \<noteq> []"
  shows "\<exists>f. selectorResult e b sel =
               (\<lparr>singular = False, err = Some (Errorf f []), visitor = NilVisitor,
                 sources = []\<rparr>, [])"
proof (cases "names b = []")
  case False
  then show ?thesis by (simp add: selectorResult_def)
next
  case n: True
  show ?thesis
  proof (cases "resourceTuples b = []")
    case False
    with n show ?thesis by (simp add: selectorResult_def)
  next
    case t: True
    show ?thesis
    proof (cases "resources b = []")
      case True
      with n t show ?thesis by (simp add: selectorResult_def)
    next
      case False
      with n t assms show ?thesis by (simp add: selectorResult_def)
    qed
  qed
qed

lemma tupleResult_conflict:
  assumes "paths b \<noteq> [] \<or> resources b \<noteq> []"
  shows "\<exists>f. tupleResult e b =
               (\<lparr>singular = (length (resourceTuples b) = 1), err = Some (Errorf f []),
                 visitor = NilVisitor, sources = []\<rparr>, [])"
proof (cases "paths b = []")
  case False
  then show ?thesis by (simp add: tupleResult_def)
next
  case True
  with assms show ?thesis by (simp add: tupleResult_def)
qed

lemma nameResult_conflict:
  assumes "paths b \<noteq> []"
  shows "\<exists>f. nameResult e b =
               (\<lparr>singular = (length (names b) = 1), err = Some (Errorf f []),
                 visitor = NilVisitor, sources = []\<rparr>, [])"
  using assms by (simp add: nameResult_def)

lemma mixed_modes_rejected:
  assumes inv: "builderInv b" and two: "2 \<le> populatedModes b"
  shows "(\<exists>er. err (fst (visitorResult e b)) = Some er \<and> isConfigurationError er)
         \<and> snd (snd (visitorResult e b)) = []"
proof (cases "errs b = []")
  case False
  have "list_all isErrorf (errs b)" using inv by (simp add: builderInv_def)
  then have "isConfigurationError (Aggregate (errs b))"
    using False by (simp add: isConfigurationError_def)
  then show ?thesis
    using False by (simp add: visitorResult_def NewAggregate_def)
next
  case noerr: True
  let ?b1 = "if selectAll b then b\<lparr>selector := Some (Everything e)\<rparr> else b"
  have vr: "visitorResult e b = (fst (modeResult e ?b1), ?b1, snd (modeResult e ?b1))"
    using noerr by (simp add: visitorResult_def Let_def)
  have same: "names ?b1 = names b" "resourceTuples ?b1 = resourceTuples b"
      "paths ?b1 = paths b" "resources ?b1 = resources b"
    by simp_all
  have "\<exists>f sg. modeResult e ?b1 =
               (\<lparr>singular = sg, err = Some (Errorf f []), visitor = NilVisitor,
                 sources = []\<rparr>, [])"
  proof (cases "selector ?b1")
    case (Some sel)
    then have "selector b \<noteq> None \<or> selectAll b" by (auto split: if_splits)
    with two have "names b \<noteq> [] \<or> resourceTuples b \<noteq> [] \<or> paths b \<noteq> []"
      by (auto simp: populatedModes_def split: if_splits)
    then have "names ?b1 \<noteq> [] \<or> resourceTuples ?b1 \<noteq> [] \<or> paths ?b1 \<noteq> []"
      using same by simp
    from selectorResult_conflict [OF this, of e sel]
    show ?thesis using Some by (auto simp: modeResult_def)
  next
    case None
    then have ns: "selector b = None" "\<not> selectAll b" by (auto split: if_splits)
    then have b1: "?b1 = b" by simp
    show ?thesis
    proof (cases "resourceTuples b = []")
      case False
      from two ns False have "names b \<noteq> [] \<or> paths b \<noteq> []"
        by (auto simp: populatedModes_def split: if_splits)
      then have "paths b \<noteq> [] \<or> resources b \<noteq> []"
        using inv by (auto simp: builderInv_def)
      from tupleResult_conflict [OF this, of e]
      show ?thesis using ns False by (auto simp: modeResult_def)
    next
      case True
      from two ns True have np: "names b \<noteq> []" "paths b \<noteq> []"
        by (auto simp: populatedModes_def split: if_splits)
      from nameResult_conflict [OF np(2), of e]
      show ?thesis using ns True np by (auto simp: modeResult_def)
    qed
  qed
  then obtain f sg where "modeResult e ?b1 =
               (\<lparr>singular = sg, err = Some (Errorf f []), visitor = NilVisitor,
                 sources = []\<rparr>, [])" by blast
  then show ?thesis
    unfolding vr by (simp add: isConfigurationError_def)
qed

text \<open>
  The first part of the invariant is needed: a builder state with a tuple, a name and no
  resource type, which no list of calls produces, runs tuple mode and ignores the name.
\<close>

lemma tuple_and_name_without_resource_type:
  "err (fst (visitorResult testEnv
               (NewBuilder\<lparr>resourceTuples := [\<lparr>Resource = ''pods'', Name = ''foo''\<rparr>],
                           names := [''bar''], namespace := ''default''\<rparr>))) = None"
  by (simp add: visitorResult_def modeResult_def NewBuilder_def tupleResult_def
      resourceTupleMappings_def testEnv_def podsMapping_def clientKey_def
      selectorNamespace_def NewInfo_def)

text \<open>
  C1.  For every configuration, that is for every builder state that a list of method
  calls produces from \<open>NewBuilder\<close>, in which two or more of the four selection modes
  are populated (a selector, set or made by select all; resource/name tuples; names;
  path, URL or stdin sources), \<open>visitorResult\<close> returns a result whose error is a
  configuration error, and it makes no call on the mapper or on a client: no mapping is
  resolved, no client constructed, nothing fetched.
\<close>

theorem C1_mixed_modes_rejected:
  "2 \<le> populatedModes (configure e cs) \<Longrightarrow>
     (\<exists>er. err (fst (visitorResult e (configure e cs))) = Some er \<and> isConfigurationError er)
     \<and> snd (snd (visitorResult e (configure e cs))) = []"
  using builderInv_configure by (rule mixed_modes_rejected)

lemma configure_selectorAndName:
  "configure testEnv selectorAndName =
     NewBuilder\<lparr>selector := Some (LabelSelector [(''app=web'', ''app=web'')]),
                names := [''foo''], resources := [''pods'']\<rparr>"
  by (simp add: configure_def selectorAndName_def SelectorParam_def Selector_def
      ResourceTypeOrNameArgs_def testEnv_def hasCombinedTypeArgs_def Contains_def
      SplitResourceArgument_def NewBuilder_def ResourceTypes_def)

theorem C1_mixed_modes_rejected_witness:
  "2 \<le> populatedModes (configure testEnv selectorAndName)
   \<and> (\<exists>er. err (fst (visitorResult testEnv (configure testEnv selectorAndName))) = Some er
            \<and> isConfigurationError er)
   \<and> snd (snd (visitorResult testEnv (configure testEnv selectorAndName))) = []
   \<and> err (fst (visitorResult testEnv (configure testEnv selectorAndName))) =
        Some (Errorf ''name cannot be provided when a selector is specified'' [])"
proof -
  have two: "2 \<le> populatedModes (configure testEnv selectorAndName)"
    by (simp add: configure_selectorAndName populatedModes_def NewBuilder_def)
  have v: "err (fst (visitorResult testEnv (configure testEnv selectorAndName))) =
        Some (Errorf ''name cannot be provided when a selector is specified'' [])"
    by (simp add: configure_selectorAndName visitorResult_def modeResult_def NewBuilder_def
        selectorResult_def)
  show ?thesis
    using two v C1_mixed_modes_rejected [OF two] by (intro conjI) simp_all
qed

end
